theory Spec2Isabelle
  imports Main
begin

section \<open>JavaScript values\<close>

text \<open>
  A value of object type as the TypeScript sources see it: \<open>undefined\<close>, \<open>null\<close> or an
  object. Only an object is truthy.
\<close>

datatype 'a js = Undefined | Null | Obj 'a

fun truthy :: "'a js \<Rightarrow> bool" where
  "truthy (Obj _) = True"
| "truthy _ = False"

text \<open>\<open>typeof v !== 'undefined'\<close>: \<open>null\<close> passes this test.\<close>

fun defined :: "'a js \<Rightarrow> bool" where
  "defined Undefined = False"
| "defined _ = True"

text \<open>
  A JavaScript array of such values. A hole of a sparse array reads as \<open>undefined\<close>, and an
  assignment past the end extends the array with holes; the holes are kept as \<open>Undefined\<close>
  elements.
\<close>

definition js_get :: "'a js list \<Rightarrow> nat \<Rightarrow> 'a js" where
  "js_get xs i = (if i < length xs then xs ! i else Undefined)"

definition js_set :: "'a js list \<Rightarrow> nat \<Rightarrow> 'a js \<Rightarrow> 'a js list" where
  "js_set xs i v =
     (if i < length xs then xs[i := v]
      else xs @ replicate (i - length xs) Undefined @ [v])"

text \<open>
  Modelled from the spec: \<open>coalesce\<close> of \<open>vs/base/common/arrays\<close> is not among the sources.
  It keeps the truthy elements of an array in their order (\<open>array.filter(e => !!e)\<close>), so
  holes, \<open>undefined\<close> and \<open>null\<close> are dropped.
\<close>

definition coalesce :: "'a js list \<Rightarrow> 'a js list" where
  "coalesce array = filter truthy array"

section \<open>Positions and ranges\<close>

record Position =
  lineNumber :: int
  column :: int

record Range =
  startLineNumber :: int
  startColumn :: int
  endLineNumber :: int
  endColumn :: int

section \<open>getHover\<close>

text \<open>The \<open>Hover\<close> interface of \<open>vs/editor/common/modes\<close>: both fields may be absent.\<close>

record Hover =
  contents :: "string list js"
  range_hover :: "Range js"

text \<open>
  What one call of \<open>provideHover\<close> does: it returns a value (directly or through a
  thenable that resolves), throws, or returns a thenable that rejects.
\<close>

datatype 'e outcome = Returns "Hover js" | Throws 'e | Rejects 'e

type_synonym ('m, 'e) HoverProvider = "'m \<Rightarrow> Position \<Rightarrow> 'e outcome"

text \<open>A promise is pending, or has settled with a value or with an error.\<close>

datatype ('e, 'a) promise = Pending | Fulfilled 'a | Rejected 'e

text \<open>
  Modelled from the spec: \<open>asWinJsPromise\<close> of \<open>vs/base/common/async\<close> is not among the
  sources. It runs the callback at once and wraps what the callback does in a promise: a
  thrown error and a rejected thenable both reject the promise.
\<close>

fun asWinJsPromise :: "'e outcome \<Rightarrow> ('e, Hover js) promise" where
  "asWinJsPromise (Returns v) = Fulfilled v"
| "asWinJsPromise (Throws e) = Rejected e"
| "asWinJsPromise (Rejects e) = Rejected e"

text \<open>
  The state one call of \<open>getHover\<close> works on: the \<open>values\<close> array, the promises that
  \<open>supports.map\<close> builds (what each provider call will settle with, and the state of the
  promise \<open>then\<close> derives from it), and two logs of the calls that leave the function:
  the \<open>provideHover\<close> invocations (provider index, model, position) and the errors
  handed to \<open>onUnexpectedExternalError\<close>.
\<close>

record ('m, 'e) hover_run =
  values_arr :: "Hover js list"
  provided :: "('e, Hover js) promise list"
  promises :: "('e, unit) promise list"
  invoked :: "(nat \<times> 'm \<times> Position) list"
  reported :: "'e list"

text \<open>The test of lines 26 to 29 on a provider's result.\<close>

definition hasRange :: "Hover \<Rightarrow> bool" where
  "hasRange result = defined (range_hover result)"

definition hasHtmlContent :: "Hover \<Rightarrow> bool" where
  "hasHtmlContent result =
     (defined (contents result) \<and> truthy (contents result) \<and>
      (case contents result of Obj cs \<Rightarrow> length cs > 0 | _ \<Rightarrow> False))"

text \<open>The fulfilment handler of provider \<open>idx\<close> (lines 25 to 32).\<close>

definition onResult :: "nat \<Rightarrow> Hover js \<Rightarrow> ('m, 'e) hover_run \<Rightarrow> ('m, 'e) hover_run" where
  "onResult idx result st =
     (case result of
        Obj r \<Rightarrow>
          if hasRange r \<and> hasHtmlContent r
          then st\<lparr>values_arr := js_set (values_arr st) idx result\<rparr>
          else st
      | _ \<Rightarrow> st)"

text \<open>
  Modelled from the spec: \<open>onUnexpectedExternalError\<close> of \<open>vs/base/common/errors\<close> is
  not among the sources; it hands the error to the error handler and returns, which is the
  error suppression. \<open>onError\<close> is the rejection handler (lines 33 to 35) that calls it.
\<close>

definition onError :: "'e \<Rightarrow> ('m, 'e) hover_run \<Rightarrow> ('m, 'e) hover_run" where
  "onError err st = st\<lparr>reported := reported st @ [err]\<rparr>"

text \<open>
  \<open>supports.map\<close> (lines 22 to 24): every provider is called once, in the order of the
  list, with the model and the position of the \<open>getHover\<close> call.
\<close>

fun fan_out :: "'m \<Rightarrow> Position \<Rightarrow> ('m, 'e) HoverProvider list \<Rightarrow> nat \<Rightarrow>
    ('m, 'e) hover_run \<Rightarrow> ('m, 'e) hover_run" where
  "fan_out model position [] idx st = st"
| "fan_out model position (support # supports) idx st =
     fan_out model position supports (Suc idx)
       (st\<lparr>invoked := invoked st @ [(idx, model, position)],
           provided := provided st @ [asWinJsPromise (support model position)],
           promises := promises st @ [Pending]\<rparr>)"

text \<open>
  The provider promise \<open>idx\<close> settles: its handler runs and the derived promise is
  fulfilled with \<open>undefined\<close>. A promise settles once, so a second settlement of the same
  index, or an index that names no promise, changes nothing.
\<close>

definition settle :: "('m, 'e) hover_run \<Rightarrow> nat \<Rightarrow> ('m, 'e) hover_run" where
  "settle st idx =
     (if idx < length (promises st) \<and> promises st ! idx = Pending then
        (case provided st ! idx of
           Fulfilled result \<Rightarrow> (onResult idx result st)\<lparr>promises := (promises st)[idx := Fulfilled ()]\<rparr>
         | Rejected err \<Rightarrow> (onError err st)\<lparr>promises := (promises st)[idx := Fulfilled ()]\<rparr>
         | Pending \<Rightarrow> st)
      else st)"

text \<open>
  Modelled from the spec: \<open>TPromise.join\<close> of \<open>vs/base/common/winjs.base\<close> is not among
  the sources. The joined promise settles when every promise has settled: it is rejected
  with the errors when one of them was rejected and fulfilled with the values otherwise.
\<close>

fun errors_of :: "('e, 'a) promise list \<Rightarrow> 'e list" where
  "errors_of [] = []"
| "errors_of (Rejected e # ps) = e # errors_of ps"
| "errors_of (_ # ps) = errors_of ps"

fun values_of :: "('e, 'a) promise list \<Rightarrow> 'a list" where
  "values_of [] = []"
| "values_of (Fulfilled v # ps) = v # values_of ps"
| "values_of (_ # ps) = values_of ps"

definition join :: "('e, 'a) promise list \<Rightarrow> ('e list, 'a list) promise" where
  "join ps =
     (if Pending \<in> set ps then Pending
      else if errors_of ps \<noteq> [] then Rejected (errors_of ps)
      else Fulfilled (values_of ps))"

text \<open>\<open>then\<close> with a fulfilment handler only.\<close>

fun then_promise :: "('e, 'a) promise \<Rightarrow> ('a \<Rightarrow> 'b) \<Rightarrow> ('e, 'b) promise" where
  "then_promise Pending f = Pending"
| "then_promise (Fulfilled v) f = Fulfilled (f v)"
| "then_promise (Rejected e) f = Rejected e"

definition hover_start :: "('m, 'e) hover_run" where
  "hover_start = \<lparr>values_arr = [], provided = [], promises = [], invoked = [], reported = []\<rparr>"

text \<open>
  \<open>getHover\<close> run to the point where the provider promises named by \<open>settled\<close> have
  settled, in that order. \<open>ordered\<close> is \<open>HoverProviderRegistry.ordered\<close>.
\<close>

definition getHover_run :: "('m \<Rightarrow> ('m, 'e) HoverProvider list) \<Rightarrow> 'm \<Rightarrow> Position \<Rightarrow> nat list \<Rightarrow>
    ('m, 'e) hover_run" where
  "getHover_run ordered model position settled =
     (let supports = ordered model
      in foldl settle (fan_out model position supports 0 hover_start) settled)"

text \<open>The state of the promise that \<open>getHover\<close> returned, at that point.\<close>

definition getHover :: "('m \<Rightarrow> ('m, 'e) HoverProvider list) \<Rightarrow> 'm \<Rightarrow> Position \<Rightarrow> nat list \<Rightarrow>
    ('e list, Hover js list) promise" where
  "getHover ordered model position settled =
     (let st = getHover_run ordered model position settled
      in then_promise (join (promises st)) (\<lambda>_. coalesce (values_arr st)))"

text \<open>Every provider promise settles in the course of \<open>settled\<close>.\<close>

definition all_settle :: "nat \<Rightarrow> nat list \<Rightarrow> bool" where
  "all_settle n settled = (list_all (\<lambda>i. i \<in> set settled) [0..<n])"

text \<open>
  Reading aids for the statements about \<open>getHover\<close>: whether a provider call failed, the
  value it returned (\<open>undefined\<close> when it failed), and the test of lines 26 to 29 on a
  returned value.
\<close>

fun fails :: "'e outcome \<Rightarrow> bool" where
  "fails (Returns _) = False"
| "fails (Throws _) = True"
| "fails (Rejects _) = True"

fun returned :: "'e outcome \<Rightarrow> Hover js" where
  "returned (Returns v) = v"
| "returned _ = Undefined"

definition accepted :: "Hover js \<Rightarrow> bool" where
  "accepted v = (case v of Obj r \<Rightarrow> hasRange r \<and> hasHtmlContent r | _ \<Rightarrow> False)"

text \<open>What the slot of a settled provider promise holds in \<open>values\<close>.\<close>

fun kept :: "('e, Hover js) promise \<Rightarrow> Hover js" where
  "kept (Fulfilled (Obj r)) = (if hasRange r \<and> hasHtmlContent r then Obj r else Undefined)"
| "kept _ = Undefined"

text \<open>
  The invariant of a run: \<open>S\<close> is the set of provider promises that have settled, \<open>P\<close> the
  provider promises and \<open>L\<close> the invocation log.
\<close>

definition run_inv :: "('e, Hover js) promise list \<Rightarrow> (nat \<times> 'm \<times> Position) list \<Rightarrow> nat set \<Rightarrow>
    ('m, 'e) hover_run \<Rightarrow> bool" where
  "run_inv P L S st \<longleftrightarrow>
     provided st = P \<and> invoked st = L \<and>
     promises st = map (\<lambda>i. if i \<in> S then Fulfilled () else Pending) [0..<length P] \<and>
     length (values_arr st) \<le> length P \<and>
     (\<forall>i. js_get (values_arr st) i = (if i \<in> S \<and> i < length P then kept (P ! i) else Undefined))"

text \<open>Sample inputs.\<close>

definition ex_range :: Range where
  "ex_range = \<lparr>startLineNumber = 1, startColumn = 1, endLineNumber = 1, endColumn = 5\<rparr>"

definition ex_pos :: Position where
  "ex_pos = \<lparr>lineNumber = 1, column = 2\<rparr>"

definition ex_hover :: "string \<Rightarrow> Hover js" where
  "ex_hover s = Obj \<lparr>contents = Obj [s], range_hover = Obj ex_range\<rparr>"

definition ex_empty_hover :: "Hover js" where
  "ex_empty_hover = Obj \<lparr>contents = Obj [], range_hover = Obj ex_range\<rparr>"

definition ex_supports :: "(string, string) HoverProvider list" where
  "ex_supports =
     [\<lambda>_ _. Returns (ex_hover ''a''), \<lambda>_ _. Throws ''boom'', \<lambda>_ _. Returns (ex_hover ''b'')]"

definition ex_unaccepted :: "(string, string) HoverProvider list" where
  "ex_unaccepted = [\<lambda>_ _. Returns ex_empty_hover]"

section \<open>OneCursor\<close>

text \<open>
  \<open>SingleCursorState\<close> of \<open>vs/editor/common/controller/cursorCommon\<close>, with the four
  fields its constructor takes. Its \<open>equals\<close>, and \<open>equalsRange\<close> and \<open>equals\<close> of
  \<open>Range\<close> and \<open>Position\<close>, compare field by field, which is equality of the records.
\<close>

record SingleCursorState =
  selectionStart :: Range
  selectionStartLeftoverVisibleColumns :: int
  position :: Position
  leftoverVisibleColumns :: int

text \<open>
  \<open>CursorContext\<close> is declared in \<open>cursorCommon\<close>, which is not among the sources, so
  what \<open>OneCursor\<close> calls on it is taken as a parameter: the two validations of
  \<open>context.model\<close>, the coordinate conversions, the view validations, and
  \<open>context.model._setTrackedRange\<close> (given the tracked range's id and the cursor state
  whose \<open>selection\<close> is tracked, \<open>None\<close> for \<open>null\<close>; it returns the new id). The
  constructor of \<open>Range\<close> is not among the sources either and is the parameter \<open>newRange\<close>.
\<close>

record CursorContext =
  validateRange :: "Range \<Rightarrow> Range"
  validatePosition :: "Position \<Rightarrow> Position"
  convertViewRangeToModelRange :: "Range \<Rightarrow> Range"
  convertViewPositionToModelPosition :: "int \<Rightarrow> int \<Rightarrow> Position"
  convertModelPositionToViewPosition :: "Position \<Rightarrow> Position"
  validateViewRange :: "Range \<Rightarrow> Range \<Rightarrow> Range"
  validateViewPosition :: "Position \<Rightarrow> Position \<Rightarrow> Position"
  setTrackedRange :: "string option \<Rightarrow> SingleCursorState option \<Rightarrow> string option"
  newRange :: "int \<Rightarrow> int \<Rightarrow> int \<Rightarrow> int \<Rightarrow> Range"

record OneCursor =
  modelState :: "SingleCursorState option"
  viewState :: "SingleCursorState option"
  selTrackedRange :: "string option"

text \<open>Reading a property of \<open>null\<close> throws.\<close>

datatype error = TypeError

text \<open>The first half of \<open>_setState\<close> (lines 58 to 80): the new model state.\<close>

definition newModelState :: "CursorContext \<Rightarrow> SingleCursorState option \<Rightarrow> SingleCursorState option \<Rightarrow>
    error + SingleCursorState" where
  "newModelState context modelState' viewState' =
     (case modelState' of
        None \<Rightarrow>
          (case viewState' of
             None \<Rightarrow> Inl TypeError
           | Some vs \<Rightarrow>
               let selectionStart' = validateRange context
                     (convertViewRangeToModelRange context (selectionStart vs));
                   position' = validatePosition context
                     (convertViewPositionToModelPosition context
                        (lineNumber (position vs)) (column (position vs)))
               in Inr \<lparr>selectionStart = selectionStart',
                       selectionStartLeftoverVisibleColumns = selectionStartLeftoverVisibleColumns vs,
                       position = position',
                       leftoverVisibleColumns = leftoverVisibleColumns vs\<rparr>)
      | Some ms \<Rightarrow>
          let selectionStart' = validateRange context (selectionStart ms);
              selectionStartLeftoverVisibleColumns' =
                (if selectionStart ms = selectionStart'
                 then selectionStartLeftoverVisibleColumns ms else 0);
              position' = validatePosition context (position ms);
              leftoverVisibleColumns' =
                (if position ms = position' then leftoverVisibleColumns ms else 0)
          in Inr \<lparr>selectionStart = selectionStart',
                  selectionStartLeftoverVisibleColumns = selectionStartLeftoverVisibleColumns',
                  position = position',
                  leftoverVisibleColumns = leftoverVisibleColumns'\<rparr>)"

text \<open>The second half (lines 82 to 94): the new view state, from the new model state.\<close>

definition newViewState :: "CursorContext \<Rightarrow> SingleCursorState \<Rightarrow> SingleCursorState option \<Rightarrow>
    SingleCursorState" where
  "newViewState context ms viewState' =
     (case viewState' of
        None \<Rightarrow>
          let viewSelectionStart1 = convertModelPositionToViewPosition context
                \<lparr>lineNumber = startLineNumber (selectionStart ms),
                 column = startColumn (selectionStart ms)\<rparr>;
              viewSelectionStart2 = convertModelPositionToViewPosition context
                \<lparr>lineNumber = endLineNumber (selectionStart ms),
                 column = endColumn (selectionStart ms)\<rparr>;
              viewSelectionStart = newRange context
                (lineNumber viewSelectionStart1) (column viewSelectionStart1)
                (lineNumber viewSelectionStart2) (column viewSelectionStart2);
              viewPosition = convertModelPositionToViewPosition context (position ms)
          in \<lparr>selectionStart = viewSelectionStart,
              selectionStartLeftoverVisibleColumns = selectionStartLeftoverVisibleColumns ms,
              position = viewPosition,
              leftoverVisibleColumns = leftoverVisibleColumns ms\<rparr>
      | Some vs \<Rightarrow>
          let viewSelectionStart = validateViewRange context (selectionStart vs) (selectionStart ms);
              viewPosition = validateViewPosition context (position vs) (position ms)
          in \<lparr>selectionStart = viewSelectionStart,
              selectionStartLeftoverVisibleColumns = selectionStartLeftoverVisibleColumns ms,
              position = viewPosition,
              leftoverVisibleColumns = leftoverVisibleColumns ms\<rparr>)"

text \<open>
  \<open>_setState\<close> (lines 57 to 105): the two halves, the early return when both states are
  already the stored ones, and the assignments.
\<close>

definition setState_private :: "CursorContext \<Rightarrow> SingleCursorState option \<Rightarrow>
    SingleCursorState option \<Rightarrow> OneCursor \<Rightarrow> error + OneCursor" where
  "setState_private context modelState' viewState' this =
     (case newModelState context modelState' viewState' of
        Inl e \<Rightarrow> Inl e
      | Inr ms \<Rightarrow>
          let vs = newViewState context ms viewState'
          in if modelState this = Some ms \<and> viewState this = Some vs then Inr this
             else Inr (this\<lparr>modelState := Some ms, viewState := Some vs,
                    selTrackedRange := setTrackedRange context (selTrackedRange this) (Some ms)\<rparr>))"

definition setState :: "CursorContext \<Rightarrow> SingleCursorState option \<Rightarrow> SingleCursorState option \<Rightarrow>
    OneCursor \<Rightarrow> error + OneCursor" where
  "setState context modelState' viewState' this = setState_private context modelState' viewState' this"

definition ensureValidState :: "CursorContext \<Rightarrow> OneCursor \<Rightarrow> error + OneCursor" where
  "ensureValidState context this = setState_private context (modelState this) (viewState this) this"

definition initialState :: "CursorContext \<Rightarrow> SingleCursorState" where
  "initialState context =
     \<lparr>selectionStart = newRange context 1 1 1 1, selectionStartLeftoverVisibleColumns = 0,
      position = \<lparr>lineNumber = 1, column = 1\<rparr>, leftoverVisibleColumns = 0\<rparr>"

text \<open>The constructor (lines 20 to 31).\<close>

definition OneCursor_new :: "CursorContext \<Rightarrow> error + OneCursor" where
  "OneCursor_new context =
     setState_private context (Some (initialState context)) (Some (initialState context))
       \<lparr>modelState = None, viewState = None, selTrackedRange = None\<rparr>"

definition dispose :: "CursorContext \<Rightarrow> OneCursor \<Rightarrow> OneCursor" where
  "dispose context this =
     this\<lparr>selTrackedRange := setTrackedRange context (selTrackedRange this) None\<rparr>"

text \<open>
  A call on a cursor and the cursor after it: a call that throws has assigned nothing.
\<close>

datatype cursor_call =
  SetState CursorContext "SingleCursorState option" "SingleCursorState option"
| EnsureValidState CursorContext

fun after_call :: "OneCursor \<Rightarrow> cursor_call \<Rightarrow> OneCursor" where
  "after_call this (SetState context ms vs) =
     (case setState context ms vs this of Inl _ \<Rightarrow> this | Inr this' \<Rightarrow> this')"
| "after_call this (EnsureValidState context) =
     (case ensureValidState context this of Inl _ \<Rightarrow> this | Inr this' \<Rightarrow> this')"

text \<open>
  Both states are set and the view state carries the model state's leftover columns.
\<close>

definition columns_synchronized :: "OneCursor \<Rightarrow> bool" where
  "columns_synchronized this =
     (case (modelState this, viewState this) of
        (Some ms, Some vs) \<Rightarrow>
          selectionStartLeftoverVisibleColumns vs = selectionStartLeftoverVisibleColumns ms \<and>
          leftoverVisibleColumns vs = leftoverVisibleColumns ms
      | _ \<Rightarrow> False)"

text \<open>
  The stored view coordinates come from the stored model coordinates: by the model-to-view
  conversion when the call had no view state, by the view validation of the view state
  \<open>given\<close> against the model coordinates otherwise.
\<close>

definition view_corresponds :: "CursorContext \<Rightarrow> SingleCursorState option \<Rightarrow> OneCursor \<Rightarrow> bool" where
  "view_corresponds context given this =
     (case (modelState this, viewState this) of
        (Some ms, Some vs) \<Rightarrow>
          (case given of
             None \<Rightarrow>
               selectionStart vs =
                 newRange context
                   (lineNumber (convertModelPositionToViewPosition context
                      \<lparr>lineNumber = startLineNumber (selectionStart ms),
                       column = startColumn (selectionStart ms)\<rparr>))
                   (column (convertModelPositionToViewPosition context
                      \<lparr>lineNumber = startLineNumber (selectionStart ms),
                       column = startColumn (selectionStart ms)\<rparr>))
                   (lineNumber (convertModelPositionToViewPosition context
                      \<lparr>lineNumber = endLineNumber (selectionStart ms),
                       column = endColumn (selectionStart ms)\<rparr>))
                   (column (convertModelPositionToViewPosition context
                      \<lparr>lineNumber = endLineNumber (selectionStart ms),
                       column = endColumn (selectionStart ms)\<rparr>)) \<and>
               position vs = convertModelPositionToViewPosition context (position ms)
           | Some v \<Rightarrow>
               selectionStart vs = validateViewRange context (selectionStart v) (selectionStart ms) \<and>
               position vs = validateViewPosition context (position v) (position ms))
      | _ \<Rightarrow> False)"

text \<open>A sample context: view lines are model lines plus ten, and validation clamps.\<close>

definition ex_context :: CursorContext where
  "ex_context =
     \<lparr>validateRange = (\<lambda>r. \<lparr>startLineNumber = max 1 (startLineNumber r), startColumn = max 1 (startColumn r),
                              endLineNumber = max 1 (endLineNumber r), endColumn = max 1 (endColumn r)\<rparr>),
      validatePosition = (\<lambda>p. \<lparr>lineNumber = max 1 (lineNumber p), column = max 1 (column p)\<rparr>),
      convertViewRangeToModelRange = (\<lambda>r. r\<lparr>startLineNumber := startLineNumber r - 10,
                              endLineNumber := endLineNumber r - 10\<rparr>),
      convertViewPositionToModelPosition = (\<lambda>l c. \<lparr>lineNumber = l - 10, column = c\<rparr>),
      convertModelPositionToViewPosition = (\<lambda>p. p\<lparr>lineNumber := lineNumber p + 10\<rparr>),
      validateViewRange = (\<lambda>v m. \<lparr>startLineNumber = max 11 (startLineNumber v), startColumn = max 1 (startColumn v),
                              endLineNumber = max 11 (endLineNumber v), endColumn = max 1 (endColumn v)\<rparr>),
      validateViewPosition = (\<lambda>v m. \<lparr>lineNumber = max 11 (lineNumber v), column = max 1 (column v)\<rparr>),
      setTrackedRange = (\<lambda>id st. Some ''tracked''),
      newRange = (\<lambda>a b c d. \<lparr>startLineNumber = a, startColumn = b, endLineNumber = c, endColumn = d\<rparr>)\<rparr>"

definition ex_cursor_state :: SingleCursorState where
  "ex_cursor_state =
     \<lparr>selectionStart = \<lparr>startLineNumber = 2, startColumn = 3, endLineNumber = 2, endColumn = 3\<rparr>,
      selectionStartLeftoverVisibleColumns = 4,
      position = \<lparr>lineNumber = 0, column = 5\<rparr>,
      leftoverVisibleColumns = 6\<rparr>"

definition ex_cursor :: OneCursor where
  "ex_cursor = \<lparr>modelState = None, viewState = None, selTrackedRange = None\<rparr>"

section \<open>QuickOpenController\<close>

text \<open>\<open>Selection\<close> of \<open>vs/editor/common/core/selection\<close>: where it starts and where the cursor is.\<close>

record Selection =
  selectionStartLineNumber :: int
  selectionStartColumn :: int
  positionLineNumber :: int
  positionColumn :: int

datatype ScrollType = Smooth | Immediate

record ModelDecorationOptions =
  className :: string
  isWholeLine :: bool

definition RANGE_HIGHLIGHT_DECORATION :: ModelDecorationOptions where
  "RANGE_HIGHLIGHT_DECORATION = \<lparr>className = ''rangeHighlight'', isWholeLine = True\<rparr>"

text \<open>
  Modelled from the spec: the editor (\<open>ICodeEditor\<close> of \<open>vs/editor/browser/editorBrowser\<close>)
  is not among the sources. An editor is what the controller reads and changes through it:
  the selection (\<open>getSelection\<close>, \<open>setSelection\<close>), the ranges it was asked to reveal
  (\<open>revealRangeInCenterIfOutsideViewport\<close>), whether it was given the focus (\<open>focus\<close>),
  and the live decorations of its model, each under the id \<open>deltaDecorations\<close> gave it.
  The ids are the editor's non-empty strings, so each is truthy; they are numbered here.
  Editors are objects: a controller holds a reference to one, and the editors live in a
  store with the counter the decoration ids come from.
\<close>

type_synonym editor_ref = nat

type_synonym decoration_id = nat

record editor_state =
  selection :: "Selection option"
  revealed :: "(Selection \<times> ScrollType) list"
  focused :: bool
  decorations :: "(decoration_id \<times> Range \<times> ModelDecorationOptions) list"

record store =
  editors :: "editor_ref \<Rightarrow> editor_state"
  nextDecorationId :: nat

definition getSelection :: "editor_ref \<Rightarrow> store \<Rightarrow> Selection option" where
  "getSelection e w = selection (editors w e)"

definition setSelection :: "editor_ref \<Rightarrow> Selection \<Rightarrow> store \<Rightarrow> store" where
  "setSelection e sel w = w\<lparr>editors := (editors w)(e := (editors w e)\<lparr>selection := Some sel\<rparr>)\<rparr>"

definition revealRangeInCenterIfOutsideViewport :: "editor_ref \<Rightarrow> Selection \<Rightarrow> ScrollType \<Rightarrow>
    store \<Rightarrow> store" where
  "revealRangeInCenterIfOutsideViewport e sel scrollType w =
     w\<lparr>editors := (editors w)(e := (editors w e)\<lparr>revealed := revealed (editors w e) @ [(sel, scrollType)]\<rparr>)\<rparr>"

definition focus :: "editor_ref \<Rightarrow> store \<Rightarrow> store" where
  "focus e w = w\<lparr>editors := (editors w)(e := (editors w e)\<lparr>focused := True\<rparr>)\<rparr>"

text \<open>
  Modelled from the spec: \<open>deltaDecorations\<close> of the change accessor that
  \<open>changeDecorations\<close> hands to its callback is not among the sources. It removes the
  decorations of the editor named by the old ids, adds the new ones under fresh ids, and
  returns these ids in the order of the new decorations.
\<close>

definition deltaDecorations :: "editor_ref \<Rightarrow> decoration_id list \<Rightarrow>
    (Range \<times> ModelDecorationOptions) list \<Rightarrow> store \<Rightarrow> decoration_id list \<times> store" where
  "deltaDecorations e oldDecorations newDecorations w =
     (let ids = [nextDecorationId w..<nextDecorationId w + length newDecorations];
          remaining = filter (\<lambda>d. fst d \<notin> set oldDecorations) (decorations (editors w e))
      in (ids,
          w\<lparr>editors := (editors w)(e := (editors w e)\<lparr>decorations := remaining @ zip ids newDecorations\<rparr>),
            nextDecorationId := nextDecorationId w + length newDecorations\<rparr>))"

text \<open>
  Modelled from the spec: \<open>QuickOpenEditorWidget\<close> is not among the sources. The widget
  is what the controller gives it and asks of it: the aria label, and the input value it
  was shown with. Its two close callbacks are the events \<open>Close\<close> below.
\<close>

record QuickOpenEditorWidget =
  inputAriaLabel :: string
  shown :: "string option"

record QuickOpenController =
  editor :: editor_ref
  widget :: "QuickOpenEditorWidget option"
  rangeHighlightDecorationId :: "decoration_id option"
  lastKnownEditorSelection :: "Selection option"

text \<open>The constructor (lines 144 to 146): the fields not assigned are \<open>undefined\<close>.\<close>

definition QuickOpenController_new :: "editor_ref \<Rightarrow> QuickOpenController" where
  "QuickOpenController_new e =
     \<lparr>editor = e, widget = None, rangeHighlightDecorationId = None, lastKnownEditorSelection = None\<rparr>"

text \<open>\<open>decorateLine\<close> (lines 208 to 226), on the editor it is given.\<close>

definition decorateLine :: "Range \<Rightarrow> editor_ref \<Rightarrow> QuickOpenController \<times> store \<Rightarrow>
    QuickOpenController \<times> store" where
  "decorateLine range' editor' cw =
     (let (this, w) = cw;
          oldDecorations = (case rangeHighlightDecorationId this of Some d \<Rightarrow> [d] | None \<Rightarrow> []);
          this1 = this\<lparr>rangeHighlightDecorationId := None\<rparr>;
          newDecorations = [(range', RANGE_HIGHLIGHT_DECORATION)];
          (decorations', w') = deltaDecorations editor' oldDecorations newDecorations w
      in (this1\<lparr>rangeHighlightDecorationId := (case decorations' of d # _ \<Rightarrow> Some d | [] \<Rightarrow> None)\<rparr>, w'))"

text \<open>\<open>clearDecorations\<close> (lines 228 to 235), on the controller's own editor.\<close>

definition clearDecorations :: "QuickOpenController \<times> store \<Rightarrow> QuickOpenController \<times> store" where
  "clearDecorations cw =
     (let (this, w) = cw
      in case rangeHighlightDecorationId this of
           Some d \<Rightarrow>
             let (_, w') = deltaDecorations (editor this) [d] [] w
             in (this\<lparr>rangeHighlightDecorationId := None\<rparr>, w')
         | None \<Rightarrow> (this, w))"

text \<open>The closure \<open>onClose\<close> of \<open>run\<close> (lines 167 to 179).\<close>

definition onClose :: "bool \<Rightarrow> QuickOpenController \<times> store \<Rightarrow> QuickOpenController \<times> store" where
  "onClose canceled cw =
     (let (this, w) = clearDecorations cw;
          w1 = (if canceled
                then (case lastKnownEditorSelection this of
                        Some sel \<Rightarrow>
                          revealRangeInCenterIfOutsideViewport (editor this) sel Smooth
                            (setSelection (editor this) sel w)
                      | None \<Rightarrow> w)
                else w)
      in (this\<lparr>lastKnownEditorSelection := None\<rparr>, focus (editor this) w1))"

text \<open>
  \<open>run\<close> (lines 160 to 201). Of \<open>opts\<close> the call itself uses the aria label only; the
  two functions of \<open>opts\<close> run when the user types into the widget.
\<close>

definition run :: "string \<Rightarrow> QuickOpenController \<times> store \<Rightarrow> QuickOpenController \<times> store" where
  "run optsInputAriaLabel cw =
     (let (this, w) = cw;
          this1 = (case widget this of Some _ \<Rightarrow> this\<lparr>widget := None\<rparr> | None \<Rightarrow> this);
          this2 = this1\<lparr>widget := Some \<lparr>inputAriaLabel = optsInputAriaLabel, shown = None\<rparr>\<rparr>;
          this3 = (case lastKnownEditorSelection this2 of
                     None \<Rightarrow> this2\<lparr>lastKnownEditorSelection := getSelection (editor this2) w\<rparr>
                   | Some _ \<Rightarrow> this2)
      in (this3\<lparr>widget := map_option (\<lambda>wd. wd\<lparr>shown := Some ''''\<rparr>) (widget this3)\<rparr>, w))"

text \<open>
  What happens to a controller and the editors: the calls of its public methods, the
  widget closing (\<open>Close canceled\<close>), and the selection of an editor moving while the
  widget is open.
\<close>

datatype event =
  Run string
| DecorateLine Range editor_ref
| ClearDecorations
| Close bool
| SelectionMoved editor_ref Selection

fun step :: "QuickOpenController \<times> store \<Rightarrow> event \<Rightarrow> QuickOpenController \<times> store" where
  "step cw (Run label) = run label cw"
| "step cw (DecorateLine r e) = decorateLine r e cw"
| "step cw ClearDecorations = clearDecorations cw"
| "step cw (Close canceled) = onClose canceled cw"
| "step cw (SelectionMoved e sel) = (fst cw, setSelection e sel (snd cw))"

fun is_close :: "event \<Rightarrow> bool" where
  "is_close (Close _) = True"
| "is_close _ = False"

text \<open>A \<open>decorateLine\<close> call that is given another editor than the controller's.\<close>

fun foreign_editor :: "editor_ref \<Rightarrow> event \<Rightarrow> bool" where
  "foreign_editor own (DecorateLine _ e) = (e \<noteq> own)"
| "foreign_editor own _ = False"

text \<open>The ids of the live range-highlight decorations of an editor.\<close>

definition live_highlights :: "editor_state \<Rightarrow> decoration_id list" where
  "live_highlights ed =
     map fst (filter (\<lambda>d. snd (snd d) = RANGE_HIGHLIGHT_DECORATION) (decorations ed))"

text \<open>
  What the controller's editor holds: the decorations \<open>others\<close>, which the controller
  did not add, followed by the decoration under the recorded id when an id is recorded.
  The ids of \<open>others\<close> were given out earlier, so they are below the counter and differ
  from the recorded id.
\<close>

definition tracks :: "(decoration_id \<times> Range \<times> ModelDecorationOptions) list \<Rightarrow>
    QuickOpenController \<times> store \<Rightarrow> bool" where
  "tracks others cw =
     ((case rangeHighlightDecorationId (fst cw) of
         None \<Rightarrow> decorations (editors (snd cw) (editor (fst cw))) = others
       | Some d \<Rightarrow>
           (\<exists>r. decorations (editors (snd cw) (editor (fst cw))) =
              others @ [(d, r, RANGE_HIGHLIGHT_DECORATION)]) \<and>
           (\<forall>x\<in>set others. fst x \<noteq> d)) \<and>
      (\<forall>x\<in>set others. fst x < nextDecorationId (snd cw)))"

definition no_editor :: editor_state where
  "no_editor = \<lparr>selection = None, revealed = [], focused = False, decorations = []\<rparr>"

definition ex_store :: store where
  "ex_store = \<lparr>editors = (\<lambda>_. no_editor), nextDecorationId = 0\<rparr>"

definition ex_selection :: Selection where
  "ex_selection =
     \<lparr>selectionStartLineNumber = 3, selectionStartColumn = 1, positionLineNumber = 3, positionColumn = 7\<rparr>"

text \<open>An editor with a selection, and a selection to move to.\<close>

definition ex_editing :: store where
  "ex_editing = ex_store\<lparr>editors := (editors ex_store)(0 := no_editor\<lparr>selection := Some ex_selection\<rparr>)\<rparr>"

definition ex_moved :: Selection where
  "ex_moved =
     \<lparr>selectionStartLineNumber = 9, selectionStartColumn = 1, positionLineNumber = 9, positionColumn = 1\<rparr>"

text \<open>
  A store in which the two editors already hold decorations: a find match in editor 0 and
  another controller's range highlight in editor 1.
\<close>

definition ex_find_match :: ModelDecorationOptions where
  "ex_find_match = \<lparr>className = ''findMatch'', isWholeLine = False\<rparr>"

definition ex_busy :: store where
  "ex_busy =
     \<lparr>editors = (\<lambda>_. no_editor)
        (0 := no_editor\<lparr>selection := Some ex_selection, decorations := [(0, ex_range, ex_find_match)]\<rparr>,
         1 := no_editor\<lparr>decorations := [(1, ex_range, RANGE_HIGHLIGHT_DECORATION)]\<rparr>),
      nextDecorationId = 2\<rparr>"

section \<open>Properties of getHover\<close>

lemma js_get_js_set: "js_get (js_set xs i v) j = (if j = i then v else js_get xs j)"
  by (auto simp: js_get_def js_set_def nth_append)

lemma length_js_set: "length (js_set xs i v) = max (length xs) (Suc i)"
  by (auto simp: js_set_def)

lemma map_js_get: "length xs \<le> n \<Longrightarrow> map (js_get xs) [0..<n] = xs @ replicate (n - length xs) Undefined"
  by (rule nth_equalityI) (auto simp: js_get_def nth_append)

lemma coalesce_js_get: "length xs \<le> n \<Longrightarrow> coalesce xs = filter truthy (map (js_get xs) [0..<n])"
  by (simp add: map_js_get coalesce_def)

lemma fan_out_eq:
  "fan_out m p ps idx st =
     st\<lparr>invoked := invoked st @ map (\<lambda>i. (i, m, p)) [idx..<idx + length ps],
        provided := provided st @ map (\<lambda>s. asWinJsPromise (s m p)) ps,
        promises := promises st @ replicate (length ps) Pending\<rparr>"
proof (induction ps arbitrary: idx st)
  case Nil
  then show ?case by simp
next
  case (Cons s ps)
  have "[idx..<Suc (idx + length ps)] = idx # [Suc idx..<Suc (idx + length ps)]"
    by (subst upt_rec) simp
  then show ?case by (simp add: Cons.IH replicate_app_Cons_same)
qed

lemma settle_inv:
  assumes "run_inv P L S st" "Pending \<notin> set P"
  shows "run_inv P L (if idx < length P then insert idx S else S) (settle st idx)"
proof (cases "idx < length P \<and> idx \<notin> S")
  case False
  with assms show ?thesis
    by (auto simp: run_inv_def settle_def insert_absorb)
next
  case True
  then have idx: "idx < length P" "idx \<notin> S" by auto
  from assms(2) idx have np: "P ! idx \<noteq> Pending" by (metis nth_mem)
  have upd: "(map (\<lambda>i. if i \<in> S then Fulfilled () else Pending) [0..<length P])[idx := Fulfilled ()]
      = map (\<lambda>i. if i \<in> insert idx S then Fulfilled () else Pending) [0..<length P]"
    using idx by (intro nth_equalityI) (auto simp: nth_list_update)
  show ?thesis
  proof (cases "P ! idx")
    case Pending
    with np show ?thesis by simp
  next
    case (Rejected e)
    with assms(1) idx upd show ?thesis
      by (auto simp: run_inv_def settle_def onError_def)
  next
    case (Fulfilled v)
    with assms(1) idx upd show ?thesis
      by (cases v) (auto simp: run_inv_def settle_def onResult_def js_get_js_set length_js_set)
  qed
qed

lemma foldl_settle_inv:
  assumes "Pending \<notin> set P"
  shows "run_inv P L S st \<Longrightarrow> run_inv P L (S \<union> (set xs \<inter> {..<length P})) (foldl settle st xs)"
proof (induction xs arbitrary: S st)
  case Nil
  then show ?case by simp
next
  case (Cons x xs)
  from settle_inv [OF Cons.prems assms, of x]
  have "run_inv P L ((if x < length P then insert x S else S) \<union> (set xs \<inter> {..<length P})) (foldl settle (settle st x) xs)"
    by (rule Cons.IH)
  moreover have "(if x < length P then insert x S else S) \<union> (set xs \<inter> {..<length P})
      = S \<union> (set (x # xs) \<inter> {..<length P})"
    by auto
  ultimately show ?case by simp
qed

lemma asWinJsPromise_settled: "Pending \<noteq> asWinJsPromise out"
  by (cases out) simp_all

lemma run_inv_start:
  "run_inv (map (\<lambda>s. asWinJsPromise (s m p)) ps) (map (\<lambda>i. (i, m, p)) [0..<length ps]) {}
     (fan_out m p ps 0 hover_start)"
  by (simp add: fan_out_eq run_inv_def hover_start_def js_get_def map_replicate_trivial)

lemma getHover_run_inv:
  "run_inv (map (\<lambda>s. asWinJsPromise (s m p)) (ordered m))
     (map (\<lambda>i. (i, m, p)) [0..<length (ordered m)])
     (set settled \<inter> {..<length (ordered m)})
     (getHover_run ordered m p settled)"
proof -
  let ?P = "map (\<lambda>s. asWinJsPromise (s m p)) (ordered m)"
  have "Pending \<notin> set ?P"
    by (auto simp: asWinJsPromise_settled)
  from foldl_settle_inv [OF this run_inv_start [of m p "ordered m"], of settled]
  show ?thesis by (simp add: getHover_run_def)
qed

lemma join_all_fulfilled: "join (replicate n (Fulfilled ())) = Fulfilled (replicate n ())"
proof -
  have "errors_of (replicate n (Fulfilled ()) :: ('e, unit) promise list) = []"
    by (induction n) simp_all
  moreover have "values_of (replicate n (Fulfilled ()) :: ('e, unit) promise list) = replicate n ()"
    by (induction n) simp_all
  ultimately show ?thesis by (auto simp: join_def)
qed

lemma getHover_settled:
  assumes "all_settle (length (ordered m)) settled"
  shows "getHover ordered m p settled =
     Fulfilled (filter truthy (map (\<lambda>s. kept (asWinJsPromise (s m p))) (ordered m)))"
proof -
  let ?n = "length (ordered m)"
  let ?P = "map (\<lambda>s. asWinJsPromise (s m p)) (ordered m)"
  let ?st = "getHover_run ordered m p settled"
  from assms have S: "set settled \<inter> {..<?n} = {..<?n}"
    by (auto simp: all_settle_def list_all_iff)
  from getHover_run_inv [of m p ordered settled]
  have pr: "promises ?st = map (\<lambda>i. if i < ?n then Fulfilled () else Pending) [0..<?n]"
    and len: "length (values_arr ?st) \<le> ?n"
    and vals: "\<And>i. js_get (values_arr ?st) i = (if i < ?n then kept (?P ! i) else Undefined)"
    by (simp_all add: run_inv_def S)
  have "promises ?st = replicate ?n (Fulfilled ())"
    unfolding pr by (rule nth_equalityI) simp_all
  then have j: "join (promises ?st) = Fulfilled (replicate ?n ())"
    by (simp add: join_all_fulfilled)
  have "map (js_get (values_arr ?st)) [0..<?n] = map kept ?P"
    by (rule nth_equalityI) (simp_all add: vals)
  with coalesce_js_get [OF len]
  have "coalesce (values_arr ?st) = filter truthy (map kept ?P)" by simp
  with j show ?thesis by (simp add: getHover_def Let_def comp_def)
qed

lemma kept_accepted:
  "filter truthy (map (\<lambda>s. kept (asWinJsPromise (s m p))) ps) =
   filter accepted (map (\<lambda>s. returned (s m p)) ps)"
proof (induction ps)
  case Nil
  then show ?case by simp
next
  case (Cons s ps)
  show ?case
  proof (cases "s m p")
    case (Returns v)
    with Cons.IH show ?thesis by (cases v) (simp_all add: accepted_def)
  next
    case (Throws e)
    with Cons.IH show ?thesis by (simp add: accepted_def)
  next
    case (Rejects e)
    with Cons.IH show ?thesis by (simp add: accepted_def)
  qed
qed

lemma getHover_accepted:
  assumes "all_settle (length (ordered m)) settled"
  shows "getHover ordered m p settled =
     Fulfilled (filter accepted (map (\<lambda>s. returned (s m p)) (ordered m)))"
  using assms getHover_settled [of ordered m settled p] by (simp add: kept_accepted)

lemma defined_iff: "defined v \<longleftrightarrow> v \<noteq> Undefined"
  by (cases v) simp_all

lemma accepted_iff:
  "accepted v \<longleftrightarrow>
     (case v of
        Obj r \<Rightarrow> range_hover r \<noteq> Undefined \<and> (case contents r of Obj cs \<Rightarrow> cs \<noteq> [] | _ \<Rightarrow> False)
      | _ \<Rightarrow> False)"
  by (cases v) (auto simp: accepted_def hasRange_def hasHtmlContent_def defined_iff split: js.splits)

lemma failing_dropped:
  "filter accepted (map (\<lambda>s. returned (s m p)) (filter (\<lambda>s. \<not> fails (s m p)) ps)) =
   filter accepted (map (\<lambda>s. returned (s m p)) ps)"
proof (induction ps)
  case Nil
  then show ?case by simp
next
  case (Cons s ps)
  then show ?case by (cases "s m p") (simp_all add: accepted_def)
qed

text \<open>
  Claim C1. Once every provider promise has settled, the promise of \<open>getHover\<close> is
  fulfilled, never rejected, whatever the providers threw or rejected. It is fulfilled with
  the very array that \<open>getHover\<close> resolves with on the provider list without the failing
  providers: a failing provider contributes nothing, and what the other providers
  contribute is unaffected.
\<close>

theorem getHover_suppresses_provider_errors:
  assumes "all_settle (length (ordered m)) settled"
    and "all_settle (length (filter (\<lambda>s. \<not> fails (s m p)) (ordered m))) settled'"
  shows "\<exists>hs. getHover ordered m p settled = Fulfilled hs \<and>
     getHover (\<lambda>mo. filter (\<lambda>s. \<not> fails (s mo p)) (ordered mo)) m p settled' = Fulfilled hs"
  using assms getHover_accepted [of ordered m settled p]
    getHover_accepted [of "\<lambda>mo. filter (\<lambda>s. \<not> fails (s mo p)) (ordered mo)" m settled' p]
  by (simp add: failing_dropped)

text \<open>Three providers, the second of which throws, settling in the order 2, 0, 1.\<close>

theorem getHover_suppresses_provider_errors_witness:
  "all_settle 3 [2, 0, 1] \<and> all_settle 2 [0, 1] \<and>
   (\<exists>hs. getHover (\<lambda>_. ex_supports) ''doc'' ex_pos [2, 0, 1] = Fulfilled hs \<and>
      getHover (\<lambda>mo. filter (\<lambda>s. \<not> fails (s mo ex_pos)) ex_supports) ''doc'' ex_pos [0, 1] = Fulfilled hs)"
  using getHover_suppresses_provider_errors
    [of "\<lambda>_. ex_supports" "''doc''" "[2, 0, 1]" ex_pos "[0, 1]"]
  by (simp add: all_settle_def eval_nat_numeral ex_supports_def)

text \<open>
  Claim C2. \<open>getHover\<close> calls \<open>provideHover\<close> once on each provider of
  \<open>HoverProviderRegistry.ordered(model)\<close>, in the order of the list and each time with
  the model and the position of the \<open>getHover\<close> call: the invocations are those of the
  indices 0 to n - 1, none skipped and none repeated, and provider promise i is what
  provider i does on that model and position.
\<close>

theorem getHover_invokes_every_provider_once:
  "invoked (getHover_run ordered m p settled) = map (\<lambda>i. (i, m, p)) [0..<length (ordered m)] \<and>
   provided (getHover_run ordered m p settled) = map (\<lambda>s. asWinJsPromise (s m p)) (ordered m)"
  using getHover_run_inv [of m p ordered settled] by (simp add: run_inv_def)

theorem getHover_invokes_every_provider_once_witness:
  "invoked (getHover_run (\<lambda>_. ex_supports) ''doc'' ex_pos [1, 0, 2]) =
     [(0, ''doc'', ex_pos), (1, ''doc'', ex_pos), (2, ''doc'', ex_pos)] \<and>
   provided (getHover_run (\<lambda>_. ex_supports) ''doc'' ex_pos [1, 0, 2]) =
     [Fulfilled (ex_hover ''a''), Rejected ''boom'', Fulfilled (ex_hover ''b'')]"
  using getHover_invokes_every_provider_once [of "\<lambda>_. ex_supports" "''doc''" ex_pos "[1, 0, 2]"]
  by (simp add: ex_supports_def eval_nat_numeral)

text \<open>
  Claim C3 as stated has the resolved array hold the hover results the providers
  produced, exactly as returned. A provider that returns a hover with a range and an
  empty \<open>contents\<close> array produces a result that the array does not hold: the array is
  empty, while the list of what the providers returned is not.
\<close>

theorem getHover_unaccepted_counterexample:
  "getHover (\<lambda>_. ex_unaccepted) ''doc'' ex_pos [0] = Fulfilled [] \<and>
   map (\<lambda>s. returned (s ''doc'' ex_pos)) ex_unaccepted = [ex_empty_hover]"
  by (simp add: getHover_def getHover_run_def ex_unaccepted_def hover_start_def settle_def
      onResult_def ex_empty_hover_def hasRange_def hasHtmlContent_def join_def coalesce_def)

text \<open>
  Claim C3, amended. The array that \<open>getHover\<close> resolves with is the collection of the
  hover results that pass the test of lines 26 to 29, listed in provider-registry order:
  it lists the results of the providers at an increasing sequence of indices, each element
  being exactly the value that provider returned.
\<close>

theorem getHover_registry_order:
  assumes "all_settle (length (ordered m)) settled"
  shows "let is = filter (\<lambda>i. accepted (returned ((ordered m ! i) m p))) [0..<length (ordered m)]
     in getHover ordered m p settled = Fulfilled (map (\<lambda>i. returned ((ordered m ! i) m p)) is) \<and>
        sorted_wrt (<) is \<and>
        (\<forall>i\<in>set is. (ordered m ! i) m p = Returns (returned ((ordered m ! i) m p)))"
proof -
  let ?ps = "ordered m"
  let ?is = "filter (\<lambda>i. accepted (returned ((?ps ! i) m p))) [0..<length ?ps]"
  have "map (\<lambda>s. returned (s m p)) ?ps = map (\<lambda>i. returned ((?ps ! i) m p)) [0..<length ?ps]"
    by (rule nth_equalityI) simp_all
  then have "filter accepted (map (\<lambda>s. returned (s m p)) ?ps) = map (\<lambda>i. returned ((?ps ! i) m p)) ?is"
    by (simp add: filter_map comp_def)
  with getHover_accepted [of ordered m settled p] assms
  have "getHover ordered m p settled = Fulfilled (map (\<lambda>i. returned ((?ps ! i) m p)) ?is)"
    by simp
  moreover have "sorted_wrt (<) ?is"
    by (rule sorted_wrt_filter) simp
  moreover have "(?ps ! i) m p = Returns (returned ((?ps ! i) m p))" if "i \<in> set ?is" for i
    using that by (cases "(?ps ! i) m p") (simp_all add: accepted_def)
  ultimately show ?thesis by (simp add: Let_def)
qed

theorem getHover_registry_order_witness:
  "all_settle 3 [2, 0, 1] \<and>
   getHover (\<lambda>_. ex_supports) ''doc'' ex_pos [2, 0, 1] = Fulfilled [ex_hover ''a'', ex_hover ''b'']"
  using getHover_registry_order [of "\<lambda>_. ex_supports" "''doc''" "[2, 0, 1]" ex_pos]
  by (simp add: all_settle_def eval_nat_numeral ex_supports_def Let_def accepted_def ex_hover_def
      hasRange_def hasHtmlContent_def)

text \<open>
  Claim C4. The resolved array is the list of the values the providers returned, in
  provider order, without those that fail the test and without the slots of failed
  providers; and a value returned by a provider is in the array if and only if it is an
  object whose \<open>range\<close> is not \<open>undefined\<close> and whose \<open>contents\<close> is a non-empty array.
\<close>

theorem getHover_keeps_accepted_values:
  assumes "all_settle (length (ordered m)) settled"
  shows "\<exists>hs. getHover ordered m p settled = Fulfilled hs \<and>
     hs = filter accepted (map (\<lambda>s. returned (s m p)) (ordered m)) \<and>
     (\<forall>s\<in>set (ordered m). \<forall>v. s m p = Returns v \<longrightarrow>
        (v \<in> set hs \<longleftrightarrow>
           (case v of
              Obj r \<Rightarrow> range_hover r \<noteq> Undefined \<and>
                (case contents r of Obj cs \<Rightarrow> cs \<noteq> [] | _ \<Rightarrow> False)
            | _ \<Rightarrow> False)))"
proof -
  let ?hs = "filter accepted (map (\<lambda>s. returned (s m p)) (ordered m))"
  have "v \<in> set ?hs \<longleftrightarrow> accepted v" if "s \<in> set (ordered m)" "s m p = Returns v" for s v
  proof -
    from that have "v \<in> set (map (\<lambda>s. returned (s m p)) (ordered m))"
      by (force simp: image_iff)
    then show ?thesis by simp
  qed
  with getHover_accepted [of ordered m settled p] assms show ?thesis
    by (simp add: accepted_iff)
qed

theorem getHover_keeps_accepted_values_witness:
  "all_settle 1 [0] \<and>
   (\<exists>hs. getHover (\<lambda>_. ex_unaccepted) ''doc'' ex_pos [0] = Fulfilled hs \<and> ex_empty_hover \<notin> set hs)"
  using getHover_keeps_accepted_values [of "\<lambda>_. ex_unaccepted" "''doc''" "[0]" ex_pos]
  by (simp add: all_settle_def ex_unaccepted_def ex_empty_hover_def accepted_def hasRange_def
      hasHtmlContent_def)

text \<open>
  Claim C8. Once every provider promise has settled, \<open>getHover\<close> resolves, and the array
  it resolves with is a function of the providers' outcomes alone: two runs in which the
  providers do the same both resolve to that array, in whatever order the provider
  promises settle in each.
\<close>

theorem getHover_deterministic:
  assumes "map (\<lambda>s. s m p) (ordered m) = map (\<lambda>s. s m' p') (ordered' m')"
    and "all_settle (length (ordered m)) settled"
    and "all_settle (length (ordered' m')) settled'"
  shows "getHover ordered m p settled =
       Fulfilled (filter accepted (map returned (map (\<lambda>s. s m p) (ordered m)))) \<and>
     getHover ordered' m' p' settled' =
       Fulfilled (filter accepted (map returned (map (\<lambda>s. s m p) (ordered m))))"
proof
  have "map (\<lambda>s. returned (s m p)) (ordered m) = map returned (map (\<lambda>s. s m p) (ordered m))"
    by (simp add: comp_def)
  moreover have "getHover ordered m p settled =
      Fulfilled (filter accepted (map (\<lambda>s. returned (s m p)) (ordered m)))"
    using assms(2) by (rule getHover_accepted)
  ultimately show "getHover ordered m p settled =
      Fulfilled (filter accepted (map returned (map (\<lambda>s. s m p) (ordered m))))"
    by (simp only:)
next
  have "map (\<lambda>s. returned (s m' p')) (ordered' m') = map returned (map (\<lambda>s. s m' p') (ordered' m'))"
    by (simp add: comp_def)
  also have "\<dots> = map returned (map (\<lambda>s. s m p) (ordered m))"
    by (simp only: assms(1))
  finally have "map (\<lambda>s. returned (s m' p')) (ordered' m') =
      map returned (map (\<lambda>s. s m p) (ordered m))" .
  moreover have "getHover ordered' m' p' settled' =
      Fulfilled (filter accepted (map (\<lambda>s. returned (s m' p')) (ordered' m')))"
    using assms(3) by (rule getHover_accepted)
  ultimately show "getHover ordered' m' p' settled' =
      Fulfilled (filter accepted (map returned (map (\<lambda>s. s m p) (ordered m))))"
    by (simp only:)
qed

theorem getHover_deterministic_witness:
  "all_settle 3 [0, 1, 2] \<and> all_settle 3 [2, 1, 0] \<and>
   getHover (\<lambda>_. ex_supports) ''doc'' ex_pos [0, 1, 2] = Fulfilled [ex_hover ''a'', ex_hover ''b''] \<and>
   getHover (\<lambda>_. ex_supports) ''doc'' ex_pos [2, 1, 0] = Fulfilled [ex_hover ''a'', ex_hover ''b'']"
  using getHover_deterministic [of "''doc''" ex_pos "\<lambda>_. ex_supports" "''doc''" ex_pos "\<lambda>_. ex_supports" "[0, 1, 2]" "[2, 1, 0]"]
  by (simp add: all_settle_def eval_nat_numeral ex_supports_def accepted_def ex_hover_def
      hasRange_def hasHtmlContent_def)

section \<open>Properties of OneCursor\<close>

lemma newModelState_cases:
  "newModelState context ms vs = Inl e \<Longrightarrow> ms = None \<and> vs = None"
  by (auto simp: newModelState_def Let_def split: option.splits)

lemma setState_private_Inr:
  assumes "newModelState context ms vs = Inr ms'"
  shows "\<exists>this'. setState_private context ms vs this = Inr this' \<and>
     modelState this' = Some ms' \<and> viewState this' = Some (newViewState context ms' vs)"
  using assms by (auto simp: setState_private_def Let_def)

lemma setState_private_Inl:
  "setState_private context ms vs this = Inl e \<Longrightarrow> ms = None \<and> vs = None"
  by (auto simp: setState_private_def Let_def newModelState_cases split: sum.splits if_splits)

lemma setState_private_post:
  assumes "setState_private context ms vs this = Inr this'"
  shows "columns_synchronized this' \<and> view_corresponds context vs this'"
proof -
  from assms obtain ms' where ms': "newModelState context ms vs = Inr ms'"
    by (auto simp: setState_private_def split: sum.splits)
  from setState_private_Inr [OF this, of this] assms
  have st: "modelState this' = Some ms'" "viewState this' = Some (newViewState context ms' vs)"
    by auto
  show ?thesis
    by (cases vs) (simp_all add: columns_synchronized_def view_corresponds_def st newViewState_def Let_def)
qed

lemma ensureValidState_total:
  assumes "columns_synchronized this"
  shows "\<exists>this'. ensureValidState context this = Inr this'"
proof (cases "ensureValidState context this")
  case (Inl e)
  then have "modelState this = None" 
    by (auto simp: ensureValidState_def dest: setState_private_Inl)
  with assms show ?thesis by (simp add: columns_synchronized_def)
next
  case (Inr this')
  then show ?thesis by simp
qed

lemma after_call_synchronized:
  assumes "columns_synchronized this"
  shows "columns_synchronized (after_call this cl)"
proof (cases cl)
  case (SetState ctx ms vs)
  with assms show ?thesis
    by (auto simp: setState_def split: sum.splits dest: setState_private_post)
next
  case (EnsureValidState ctx)
  with assms show ?thesis
    by (auto simp: ensureValidState_def split: sum.splits dest: setState_private_post)
qed

lemma foldl_after_call_synchronized:
  "columns_synchronized this \<Longrightarrow> columns_synchronized (foldl after_call this calls)"
  by (induction calls arbitrary: this) (simp_all add: after_call_synchronized)

lemma OneCursor_new_Inr: "\<exists>this. OneCursor_new context = Inr this"
  by (cases "OneCursor_new context") (auto simp: OneCursor_new_def dest: setState_private_Inl)

text \<open>
  Claim C5. The constructor returns a cursor whose model state and view state are both set
  and synchronized, and they stay so after any sequence of \<open>setState\<close> and
  \<open>ensureValidState\<close> calls. After a \<open>setState\<close> call that returns, both states are
  set, the view state carries the leftover columns of the model state, and its
  \<open>selectionStart\<close> and \<open>position\<close> are the view coordinates of the stored model
  state: its model-to-view conversion when the call had no view state, the view validation
  of the given view state against it otherwise. The call throws only when both arguments
  are \<open>null\<close>, before anything is assigned. \<open>ensureValidState\<close> on such a cursor
  returns, with the same guarantees.
\<close>

theorem OneCursor_states_synchronized:
  "(\<exists>this'. OneCursor_new context = Inr this' \<and> columns_synchronized this' \<and>
      view_corresponds context (Some (initialState context)) this' \<and>
      columns_synchronized (foldl after_call this' calls)) \<and>
   (case setState context ms vs this of
      Inr this' \<Rightarrow> columns_synchronized this' \<and> view_corresponds context vs this'
    | Inl e \<Rightarrow> ms = None \<and> vs = None) \<and>
   (columns_synchronized this \<longrightarrow>
      (\<exists>this'. ensureValidState context this = Inr this' \<and> columns_synchronized this' \<and>
         view_corresponds context (viewState this) this'))"
proof (intro conjI)
  from OneCursor_new_Inr obtain c where c: "OneCursor_new context = Inr c" by blast
  then have "columns_synchronized c \<and> view_corresponds context (Some (initialState context)) c"
    unfolding OneCursor_new_def by (rule setState_private_post)
  with c show "\<exists>this'. OneCursor_new context = Inr this' \<and> columns_synchronized this' \<and>
      view_corresponds context (Some (initialState context)) this' \<and>
      columns_synchronized (foldl after_call this' calls)"
    by (simp add: foldl_after_call_synchronized)
next
  show "case setState context ms vs this of
      Inr this' \<Rightarrow> columns_synchronized this' \<and> view_corresponds context vs this'
    | Inl e \<Rightarrow> ms = None \<and> vs = None"
    by (auto simp: setState_def split: sum.splits dest: setState_private_post setState_private_Inl)
next
  show "columns_synchronized this \<longrightarrow>
      (\<exists>this'. ensureValidState context this = Inr this' \<and> columns_synchronized this' \<and>
         view_corresponds context (viewState this) this')"
  proof
    assume "columns_synchronized this"
    then obtain this' where "ensureValidState context this = Inr this'"
      using ensureValidState_total by blast
    moreover from this have "columns_synchronized this' \<and> view_corresponds context (viewState this) this'"
      unfolding ensureValidState_def by (rule setState_private_post)
    ultimately show "\<exists>this'. ensureValidState context this = Inr this' \<and> columns_synchronized this' \<and>
         view_corresponds context (viewState this) this'"
      by simp
  qed
qed

theorem OneCursor_states_synchronized_witness:
  "columns_synchronized (ex_cursor\<lparr>modelState := Some ex_cursor_state, viewState := Some ex_cursor_state\<rparr>) \<and>
   (\<exists>this'. OneCursor_new ex_context = Inr this' \<and> columns_synchronized this' \<and>
      columns_synchronized
        (foldl after_call this'
           [SetState ex_context None None, SetState ex_context (Some ex_cursor_state) None,
            EnsureValidState ex_context])) \<and>
   (\<exists>this'. ensureValidState ex_context (ex_cursor\<lparr>modelState := Some ex_cursor_state, viewState := Some ex_cursor_state\<rparr>) = Inr this' \<and>
      columns_synchronized this' \<and> view_corresponds ex_context (Some ex_cursor_state) this')"
  using OneCursor_states_synchronized
    [of ex_context
      "[SetState ex_context None None, SetState ex_context (Some ex_cursor_state) None,
        EnsureValidState ex_context]"
      None None "ex_cursor\<lparr>modelState := Some ex_cursor_state, viewState := Some ex_cursor_state\<rparr>"]
  by (auto simp: columns_synchronized_def ex_cursor_def)

text \<open>
  Claim C6. For a model state that is not \<open>null\<close>, \<open>setState\<close> returns and stores a
  model state whose \<open>selectionStart\<close> is \<open>validateRange\<close> of the given one and whose
  \<open>position\<close> is \<open>validatePosition\<close> of the given one;
  \<open>selectionStartLeftoverVisibleColumns\<close> is the given value when validation left
  \<open>selectionStart\<close> unchanged and 0 otherwise, and \<open>leftoverVisibleColumns\<close> is the
  given value when validation left \<open>position\<close> unchanged and 0 otherwise.
\<close>

theorem setState_validates_model_state:
  "\<exists>this'. setState context (Some ms) vs this = Inr this' \<and>
     modelState this' =
       Some \<lparr>selectionStart = validateRange context (selectionStart ms),
             selectionStartLeftoverVisibleColumns =
               (if validateRange context (selectionStart ms) = selectionStart ms
                then selectionStartLeftoverVisibleColumns ms else 0),
             position = validatePosition context (position ms),
             leftoverVisibleColumns =
               (if validatePosition context (position ms) = position ms
                then leftoverVisibleColumns ms else 0)\<rparr>"
proof -
  have "newModelState context (Some ms) vs =
      Inr \<lparr>selectionStart = validateRange context (selectionStart ms),
             selectionStartLeftoverVisibleColumns =
               (if validateRange context (selectionStart ms) = selectionStart ms
                then selectionStartLeftoverVisibleColumns ms else 0),
             position = validatePosition context (position ms),
             leftoverVisibleColumns =
               (if validatePosition context (position ms) = position ms
                then leftoverVisibleColumns ms else 0)\<rparr>"
    by (auto simp: newModelState_def Let_def)
  from setState_private_Inr [OF this, of this] show ?thesis
    by (auto simp: setState_def)
qed

theorem setState_validates_model_state_witness:
  "\<exists>this'. setState ex_context (Some ex_cursor_state) None ex_cursor = Inr this' \<and>
     modelState this' =
       Some \<lparr>selectionStart = \<lparr>startLineNumber = 2, startColumn = 3, endLineNumber = 2, endColumn = 3\<rparr>,
             selectionStartLeftoverVisibleColumns = 4,
             position = \<lparr>lineNumber = 1, column = 5\<rparr>,
             leftoverVisibleColumns = 0\<rparr>"
  using setState_validates_model_state [of ex_context ex_cursor_state None ex_cursor]
  by (simp add: ex_context_def ex_cursor_state_def)

text \<open>
  Claim C7. With a \<open>null\<close> model state, the stored model state is computed from the
  view state: \<open>selectionStart\<close> is \<open>validateRange\<close> of the converted view range,
  \<open>position\<close> is \<open>validatePosition\<close> of the converted view position, and the
  leftover columns are those of the view state. With a \<open>null\<close> view state, the stored
  view state is computed from the validated model state: its \<open>selectionStart\<close> is the
  range of the two converted end points, its \<open>position\<close> the converted position, and
  the leftover columns are those of the model state. With both \<open>null\<close> the call throws.
\<close>

theorem setState_computes_missing_state:
  "(\<exists>this'. setState context None (Some vs) this = Inr this' \<and>
      modelState this' =
        Some \<lparr>selectionStart =
                validateRange context (convertViewRangeToModelRange context (selectionStart vs)),
              selectionStartLeftoverVisibleColumns = selectionStartLeftoverVisibleColumns vs,
              position =
                validatePosition context
                  (convertViewPositionToModelPosition context
                     (lineNumber (position vs)) (column (position vs))),
              leftoverVisibleColumns = leftoverVisibleColumns vs\<rparr>) \<and>
   (\<exists>this' ms'. setState context (Some ms) None this = Inr this' \<and>
      modelState this' = Some ms' \<and>
      selectionStart ms' = validateRange context (selectionStart ms) \<and>
      position ms' = validatePosition context (position ms) \<and>
      viewState this' =
        Some \<lparr>selectionStart =
                newRange context
                  (lineNumber (convertModelPositionToViewPosition context
                     \<lparr>lineNumber = startLineNumber (selectionStart ms'),
                      column = startColumn (selectionStart ms')\<rparr>))
                  (column (convertModelPositionToViewPosition context
                     \<lparr>lineNumber = startLineNumber (selectionStart ms'),
                      column = startColumn (selectionStart ms')\<rparr>))
                  (lineNumber (convertModelPositionToViewPosition context
                     \<lparr>lineNumber = endLineNumber (selectionStart ms'),
                      column = endColumn (selectionStart ms')\<rparr>))
                  (column (convertModelPositionToViewPosition context
                     \<lparr>lineNumber = endLineNumber (selectionStart ms'),
                      column = endColumn (selectionStart ms')\<rparr>)),
              selectionStartLeftoverVisibleColumns = selectionStartLeftoverVisibleColumns ms',
              position = convertModelPositionToViewPosition context (position ms'),
              leftoverVisibleColumns = leftoverVisibleColumns ms'\<rparr>) \<and>
   setState context None None this = Inl TypeError"
proof (intro conjI)
  have "newModelState context None (Some vs) =
      Inr \<lparr>selectionStart =
                validateRange context (convertViewRangeToModelRange context (selectionStart vs)),
              selectionStartLeftoverVisibleColumns = selectionStartLeftoverVisibleColumns vs,
              position =
                validatePosition context
                  (convertViewPositionToModelPosition context
                     (lineNumber (position vs)) (column (position vs))),
              leftoverVisibleColumns = leftoverVisibleColumns vs\<rparr>"
    by (simp add: newModelState_def Let_def)
  from setState_private_Inr [OF this, of this]
  show "\<exists>this'. setState context None (Some vs) this = Inr this' \<and>
      modelState this' =
        Some \<lparr>selectionStart =
                validateRange context (convertViewRangeToModelRange context (selectionStart vs)),
              selectionStartLeftoverVisibleColumns = selectionStartLeftoverVisibleColumns vs,
              position =
                validatePosition context
                  (convertViewPositionToModelPosition context
                     (lineNumber (position vs)) (column (position vs))),
              leftoverVisibleColumns = leftoverVisibleColumns vs\<rparr>"
    by (auto simp: setState_def)
next
  obtain ms' where ms': "newModelState context (Some ms) None = Inr ms'"
    by (simp add: newModelState_def Let_def)
  then have sel: "selectionStart ms' = validateRange context (selectionStart ms)"
    and pos: "position ms' = validatePosition context (position ms)"
    by (auto simp: newModelState_def Let_def)
  from setState_private_Inr [OF ms', of this] obtain this' where
    "setState context (Some ms) None this = Inr this'" "modelState this' = Some ms'"
    "viewState this' = Some (newViewState context ms' None)"
    by (auto simp: setState_def)
  with sel pos show "\<exists>this' ms'. setState context (Some ms) None this = Inr this' \<and>
      modelState this' = Some ms' \<and>
      selectionStart ms' = validateRange context (selectionStart ms) \<and>
      position ms' = validatePosition context (position ms) \<and>
      viewState this' =
        Some \<lparr>selectionStart =
                newRange context
                  (lineNumber (convertModelPositionToViewPosition context
                     \<lparr>lineNumber = startLineNumber (selectionStart ms'),
                      column = startColumn (selectionStart ms')\<rparr>))
                  (column (convertModelPositionToViewPosition context
                     \<lparr>lineNumber = startLineNumber (selectionStart ms'),
                      column = startColumn (selectionStart ms')\<rparr>))
                  (lineNumber (convertModelPositionToViewPosition context
                     \<lparr>lineNumber = endLineNumber (selectionStart ms'),
                      column = endColumn (selectionStart ms')\<rparr>))
                  (column (convertModelPositionToViewPosition context
                     \<lparr>lineNumber = endLineNumber (selectionStart ms'),
                      column = endColumn (selectionStart ms')\<rparr>)),
              selectionStartLeftoverVisibleColumns = selectionStartLeftoverVisibleColumns ms',
              position = convertModelPositionToViewPosition context (position ms'),
              leftoverVisibleColumns = leftoverVisibleColumns ms'\<rparr>"
    by (auto simp: newViewState_def Let_def)
next
  show "setState context None None this = Inl TypeError"
    by (simp add: setState_def setState_private_def newModelState_def)
qed

theorem setState_computes_missing_state_witness:
  "(\<exists>this'. setState ex_context None (Some ex_cursor_state) ex_cursor = Inr this' \<and>
      modelState this' =
        Some \<lparr>selectionStart = \<lparr>startLineNumber = 1, startColumn = 3, endLineNumber = 1, endColumn = 3\<rparr>,
              selectionStartLeftoverVisibleColumns = 4,
              position = \<lparr>lineNumber = 1, column = 5\<rparr>,
              leftoverVisibleColumns = 6\<rparr>) \<and>
   setState ex_context None None ex_cursor = Inl TypeError"
  using setState_computes_missing_state [of ex_context ex_cursor_state ex_cursor ex_cursor_state]
  by (simp add: ex_context_def ex_cursor_state_def)

section \<open>Properties of QuickOpenController\<close>

lemma decorateLine_effect:
  "decorateLine r e (c, w) =
     (c\<lparr>rangeHighlightDecorationId := Some (nextDecorationId w)\<rparr>,
      w\<lparr>editors := (editors w)(e := (editors w e)\<lparr>decorations :=
           filter (\<lambda>d. Some (fst d) \<noteq> rangeHighlightDecorationId c) (decorations (editors w e)) @
           [(nextDecorationId w, r, RANGE_HIGHLIGHT_DECORATION)]\<rparr>),
        nextDecorationId := Suc (nextDecorationId w)\<rparr>)"
  by (cases "rangeHighlightDecorationId c") (simp_all add: decorateLine_def deltaDecorations_def Let_def)

lemma decorateLine_transaction:
  "decorateLine r e (c, w) =
     (c\<lparr>rangeHighlightDecorationId := Some (nextDecorationId w)\<rparr>,
      snd (deltaDecorations e (case rangeHighlightDecorationId c of Some d \<Rightarrow> [d] | None \<Rightarrow> [])
        [(r, RANGE_HIGHLIGHT_DECORATION)] w))"
  by (cases "rangeHighlightDecorationId c") (simp_all add: decorateLine_def deltaDecorations_def Let_def)

lemma clearDecorations_effect:
  "clearDecorations (c, w) =
     (c\<lparr>rangeHighlightDecorationId := None\<rparr>,
      w\<lparr>editors := (editors w)(editor c := (editors w (editor c))\<lparr>decorations :=
           filter (\<lambda>d. Some (fst d) \<noteq> rangeHighlightDecorationId c)
             (decorations (editors w (editor c)))\<rparr>)\<rparr>)"
  by (cases "rangeHighlightDecorationId c")
    (simp_all add: clearDecorations_def deltaDecorations_def Let_def)


lemma onClose_effect:
  "onClose canceled (c, w) =
     (c\<lparr>rangeHighlightDecorationId := None, lastKnownEditorSelection := None\<rparr>,
      focus (editor c)
        ((if canceled
          then (case lastKnownEditorSelection c of
                  Some sel \<Rightarrow>
                    revealRangeInCenterIfOutsideViewport (editor c) sel Smooth
                      (setSelection (editor c) sel (snd (clearDecorations (c, w))))
                | None \<Rightarrow> snd (clearDecorations (c, w)))
          else snd (clearDecorations (c, w)))))"
  by (simp add: onClose_def clearDecorations_effect Let_def split: option.splits)

lemma step_editor: "editor (fst (step cw ev)) = editor (fst cw)"
  by (cases ev; cases cw)
    (simp_all add: run_def decorateLine_effect clearDecorations_effect onClose_effect
      Let_def split: option.splits)

lemma foldl_step_editor: "editor (fst (foldl step cw evs)) = editor (fst cw)"
  by (induction evs arbitrary: cw) (simp_all add: step_editor)

lemma tracks_decorateLine:
  assumes "tracks others (c, w)"
  shows "tracks others (decorateLine r (editor c) (c, w))"
  using assms
  by (cases "rangeHighlightDecorationId c")
    (auto simp: tracks_def decorateLine_effect less_Suc_eq)

lemma tracks_clearDecorations:
  assumes "tracks others (c, w)"
  shows "tracks others (clearDecorations (c, w))"
  using assms
  by (cases "rangeHighlightDecorationId c") (auto simp: tracks_def clearDecorations_effect)

lemma tracks_cleared:
  assumes "tracks others (c, w)"
  shows "decorations (editors (snd (clearDecorations (c, w))) (editor c)) = others"
  using assms
  by (cases "rangeHighlightDecorationId c") (auto simp: tracks_def clearDecorations_effect)

lemma onClose_decorations:
  "decorations (editors (snd (onClose canceled (c, w))) e) =
   decorations (editors (snd (clearDecorations (c, w))) e)"
  by (simp add: onClose_effect focus_def setSelection_def revealRangeInCenterIfOutsideViewport_def
      split: option.splits)

lemma tracks_onClose:
  assumes "tracks others (c, w)"
  shows "tracks others (onClose canceled (c, w))"
proof -
  from tracks_clearDecorations [OF assms]
  have "tracks others (c\<lparr>rangeHighlightDecorationId := None\<rparr>, snd (clearDecorations (c, w)))"
    by (simp add: clearDecorations_effect)
  then have "decorations (editors (snd (clearDecorations (c, w))) (editor c)) = others"
    and "\<forall>x\<in>set others. fst x < nextDecorationId (snd (clearDecorations (c, w)))"
    by (simp_all add: tracks_def)
  moreover have "nextDecorationId (snd (onClose canceled (c, w))) =
      nextDecorationId (snd (clearDecorations (c, w)))"
    by (simp add: onClose_effect focus_def setSelection_def revealRangeInCenterIfOutsideViewport_def
        split: option.splits)
  moreover have "editor (fst (onClose canceled (c, w))) = editor c"
    and "rangeHighlightDecorationId (fst (onClose canceled (c, w))) = None"
    by (simp_all add: onClose_effect)
  ultimately show ?thesis
    by (simp add: tracks_def onClose_decorations)
qed

lemma step_tracks:
  assumes "tracks others cw" "\<not> foreign_editor (editor (fst cw)) ev"
  shows "tracks others (step cw ev)"
proof -
  obtain c w where cw: "cw = (c, w)" by (cases cw)
  show ?thesis
  proof (cases ev)
    case (Run label)
    with assms show ?thesis by (simp add: cw tracks_def run_def Let_def split: option.splits)
  next
    case (DecorateLine r e)
    with assms show ?thesis by (simp add: cw tracks_decorateLine)
  next
    case ClearDecorations
    with assms show ?thesis by (simp add: cw tracks_clearDecorations)
  next
    case (Close canceled)
    with assms show ?thesis by (simp add: cw tracks_onClose)
  next
    case (SelectionMoved e sel)
    with assms show ?thesis by (auto simp: cw tracks_def setSelection_def split: option.splits)
  qed
qed

lemma step_other_editors:
  assumes "\<not> foreign_editor (editor (fst cw)) ev" "e \<noteq> editor (fst cw)"
  shows "decorations (editors (snd (step cw ev)) e) = decorations (editors (snd cw) e)"
  using assms
  by (cases ev; cases cw)
    (auto simp: run_def decorateLine_effect clearDecorations_effect onClose_decorations
      setSelection_def Let_def split: option.splits)

lemma foldl_step_tracks:
  assumes "tracks others cw" "\<forall>ev\<in>set evs. \<not> foreign_editor (editor (fst cw)) ev"
  shows "tracks others (foldl step cw evs) \<and>
     (\<forall>e. e \<noteq> editor (fst cw) \<longrightarrow>
        decorations (editors (snd (foldl step cw evs)) e) = decorations (editors (snd cw) e))"
  using assms
proof (induction evs arbitrary: cw)
  case Nil
  then show ?case by simp
next
  case (Cons ev evs)
  from Cons.prems have "tracks others (step cw ev)" by (simp add: step_tracks)
  moreover from Cons.prems
  have "\<forall>ev'\<in>set evs. \<not> foreign_editor (editor (fst (step cw ev))) ev'"
    by (simp add: step_editor)
  ultimately have "tracks others (foldl step (step cw ev) evs) \<and>
     (\<forall>e. e \<noteq> editor (fst (step cw ev)) \<longrightarrow>
        decorations (editors (snd (foldl step (step cw ev) evs)) e) =
        decorations (editors (snd (step cw ev)) e))"
    by (rule Cons.IH)
  with Cons.prems show ?case by (simp add: step_editor step_other_editors)
qed

lemma tracks_live_highlights:
  assumes "tracks others cw"
  shows "live_highlights (editors (snd cw) (editor (fst cw))) =
     map fst (filter (\<lambda>d. snd (snd d) = RANGE_HIGHLIGHT_DECORATION) others) @
     (case rangeHighlightDecorationId (fst cw) of Some d \<Rightarrow> [d] | None \<Rightarrow> [])"
  using assms by (auto simp: tracks_def live_highlights_def split: option.splits)

text \<open>
  Claim C10, amended. A \<open>decorateLine\<close> call is one \<open>deltaDecorations\<close> transaction
  on the editor it is given: it removes the decoration under the recorded id, adds the new
  range-highlight decoration and records its id. \<open>clearDecorations\<close> removes the
  decoration under the recorded id from the controller's editor and resets the id to
  \<open>null\<close>. As long as every \<open>decorateLine\<close> call is given the controller's own editor,
  after any sequence of \<open>run\<close>, \<open>decorateLine\<close>, \<open>clearDecorations\<close>, closing and
  selection changes the controller's editor holds the decorations the controller did not
  add and, when an id is recorded, the one range-highlight decoration under that id and no
  other of the controller's; the recorded id is \<open>null\<close> or the id of that decoration,
  and the decorations of the other editors are untouched.
\<close>

theorem decorateLine_keeps_one_highlight:
  "decorateLine r e (c, w) =
     (c\<lparr>rangeHighlightDecorationId := Some (nextDecorationId w)\<rparr>,
      snd (deltaDecorations e (case rangeHighlightDecorationId c of Some d \<Rightarrow> [d] | None \<Rightarrow> [])
        [(r, RANGE_HIGHLIGHT_DECORATION)] w)) \<and>
   decorations (editors (snd (decorateLine r e (c, w))) e) =
     filter (\<lambda>d. Some (fst d) \<noteq> rangeHighlightDecorationId c) (decorations (editors w e)) @
     [(nextDecorationId w, r, RANGE_HIGHLIGHT_DECORATION)] \<and>
   rangeHighlightDecorationId (fst (clearDecorations (c, w))) = None \<and>
   decorations (editors (snd (clearDecorations (c, w))) (editor c)) =
     filter (\<lambda>d. Some (fst d) \<noteq> rangeHighlightDecorationId c) (decorations (editors w (editor c))) \<and>
   (tracks others (c, w) \<and> (\<forall>ev\<in>set evs. \<not> foreign_editor (editor c) ev) \<longrightarrow>
      tracks others (foldl step (c, w) evs) \<and>
      live_highlights (editors (snd (foldl step (c, w) evs)) (editor c)) =
        map fst (filter (\<lambda>d. snd (snd d) = RANGE_HIGHLIGHT_DECORATION) others) @
        (case rangeHighlightDecorationId (fst (foldl step (c, w) evs)) of
           Some d \<Rightarrow> [d] | None \<Rightarrow> []) \<and>
      (\<forall>e. e \<noteq> editor c \<longrightarrow>
         decorations (editors (snd (foldl step (c, w) evs)) e) = decorations (editors w e)))"
proof (intro conjI impI)
  show "decorateLine r e (c, w) =
     (c\<lparr>rangeHighlightDecorationId := Some (nextDecorationId w)\<rparr>,
      snd (deltaDecorations e (case rangeHighlightDecorationId c of Some d \<Rightarrow> [d] | None \<Rightarrow> [])
        [(r, RANGE_HIGHLIGHT_DECORATION)] w))"
    by (rule decorateLine_transaction)
  show "decorations (editors (snd (decorateLine r e (c, w))) e) =
     filter (\<lambda>d. Some (fst d) \<noteq> rangeHighlightDecorationId c) (decorations (editors w e)) @
     [(nextDecorationId w, r, RANGE_HIGHLIGHT_DECORATION)]"
    by (simp add: decorateLine_effect)
  show "rangeHighlightDecorationId (fst (clearDecorations (c, w))) = None"
    by (simp add: clearDecorations_effect)
  show "decorations (editors (snd (clearDecorations (c, w))) (editor c)) =
     filter (\<lambda>d. Some (fst d) \<noteq> rangeHighlightDecorationId c) (decorations (editors w (editor c)))"
    by (simp add: clearDecorations_effect)
next
  assume a: "tracks others (c, w) \<and> (\<forall>ev\<in>set evs. \<not> foreign_editor (editor c) ev)"
  then have t: "tracks others (foldl step (c, w) evs) \<and>
     (\<forall>e. e \<noteq> editor (fst (c, w)) \<longrightarrow>
        decorations (editors (snd (foldl step (c, w) evs)) e) = decorations (editors (snd (c, w)) e))"
    by (intro foldl_step_tracks) simp_all
  then show "tracks others (foldl step (c, w) evs)" by simp
  from t tracks_live_highlights [of others "foldl step (c, w) evs"]
  show "live_highlights (editors (snd (foldl step (c, w) evs)) (editor c)) =
        map fst (filter (\<lambda>d. snd (snd d) = RANGE_HIGHLIGHT_DECORATION) others) @
        (case rangeHighlightDecorationId (fst (foldl step (c, w) evs)) of
           Some d \<Rightarrow> [d] | None \<Rightarrow> [])"
    by (simp add: foldl_step_editor)
  from t show "\<forall>e. e \<noteq> editor c \<longrightarrow>
         decorations (editors (snd (foldl step (c, w) evs)) e) = decorations (editors w e)"
    by simp
qed

theorem decorateLine_keeps_one_highlight_witness:
  "tracks [(0, ex_range, ex_find_match)] (QuickOpenController_new 0, ex_busy) \<and>
   decorations (editors (snd (decorateLine ex_range 0 (QuickOpenController_new 0, ex_busy))) 0) =
     [(0, ex_range, ex_find_match), (2, ex_range, RANGE_HIGHLIGHT_DECORATION)] \<and>
   tracks [(0, ex_range, ex_find_match)]
     (foldl step (QuickOpenController_new 0, ex_busy)
        [DecorateLine ex_range 0, Run ''Go to line'', DecorateLine ex_range 0, ClearDecorations,
         DecorateLine ex_range 0]) \<and>
   live_highlights (editors (snd (foldl step (QuickOpenController_new 0, ex_busy)
        [DecorateLine ex_range 0, Run ''Go to line'', DecorateLine ex_range 0, ClearDecorations,
         DecorateLine ex_range 0])) 0) =
     (case rangeHighlightDecorationId (fst (foldl step (QuickOpenController_new 0, ex_busy)
        [DecorateLine ex_range 0, Run ''Go to line'', DecorateLine ex_range 0, ClearDecorations,
         DecorateLine ex_range 0])) of Some d \<Rightarrow> [d] | None \<Rightarrow> [])"
proof -
  have a: "tracks [(0, ex_range, ex_find_match)] (QuickOpenController_new 0, ex_busy)"
    by (simp add: tracks_def QuickOpenController_new_def ex_busy_def)
  have b: "\<forall>ev\<in>set [DecorateLine ex_range 0, Run ''Go to line'', DecorateLine ex_range 0,
      ClearDecorations, DecorateLine ex_range 0].
      \<not> foreign_editor (editor (QuickOpenController_new 0)) ev"
    by (simp add: QuickOpenController_new_def)
  have c: "decorations (editors ex_busy 0) = [(0, ex_range, ex_find_match)]"
    and d: "nextDecorationId ex_busy = 2"
    and e: "rangeHighlightDecorationId (QuickOpenController_new 0) = None"
    by (simp_all add: ex_busy_def QuickOpenController_new_def)
  have f: "ex_find_match \<noteq> RANGE_HIGHLIGHT_DECORATION"
    by (simp add: ex_find_match_def RANGE_HIGHLIGHT_DECORATION_def)
  have g: "editor (QuickOpenController_new 0) = 0"
    by (simp add: QuickOpenController_new_def)
  note all = decorateLine_keeps_one_highlight
    [of ex_range 0 "QuickOpenController_new 0" ex_busy "[(0, ex_range, ex_find_match)]"
      "[DecorateLine ex_range 0, Run ''Go to line'', DecorateLine ex_range 0, ClearDecorations,
        DecorateLine ex_range 0]"]
  from all [THEN conjunct2, THEN conjunct1]
  have added: "decorations (editors (snd (decorateLine ex_range 0 (QuickOpenController_new 0, ex_busy))) 0) =
     [(0, ex_range, ex_find_match), (2, ex_range, RANGE_HIGHLIGHT_DECORATION)]"
    by (simp add: c d e)
  from all [THEN conjunct2, THEN conjunct2, THEN conjunct2, THEN conjunct2] a b
  have kept: "tracks [(0, ex_range, ex_find_match)]
     (foldl step (QuickOpenController_new 0, ex_busy)
        [DecorateLine ex_range 0, Run ''Go to line'', DecorateLine ex_range 0, ClearDecorations,
         DecorateLine ex_range 0])"
    and "live_highlights (editors (snd (foldl step (QuickOpenController_new 0, ex_busy)
        [DecorateLine ex_range 0, Run ''Go to line'', DecorateLine ex_range 0, ClearDecorations,
         DecorateLine ex_range 0])) (editor (QuickOpenController_new 0))) =
        map fst (filter (\<lambda>d. snd (snd d) = RANGE_HIGHLIGHT_DECORATION) [(0, ex_range, ex_find_match)]) @
        (case rangeHighlightDecorationId (fst (foldl step (QuickOpenController_new 0, ex_busy)
        [DecorateLine ex_range 0, Run ''Go to line'', DecorateLine ex_range 0, ClearDecorations,
         DecorateLine ex_range 0])) of Some d \<Rightarrow> [d] | None \<Rightarrow> [])"
    by blast+
  then have "live_highlights (editors (snd (foldl step (QuickOpenController_new 0, ex_busy)
        [DecorateLine ex_range 0, Run ''Go to line'', DecorateLine ex_range 0, ClearDecorations,
         DecorateLine ex_range 0])) 0) =
     (case rangeHighlightDecorationId (fst (foldl step (QuickOpenController_new 0, ex_busy)
        [DecorateLine ex_range 0, Run ''Go to line'', DecorateLine ex_range 0, ClearDecorations,
         DecorateLine ex_range 0])) of Some d \<Rightarrow> [d] | None \<Rightarrow> [])"
    by (simp only: g f filter.simps map_append list.map append_Nil if_False snd_conv)
  with a added kept show ?thesis by blast
qed

text \<open>
  Claim C10 as stated has at most one range-highlight decoration alive at any time.
  \<open>decorateLine\<close> changes the decorations of the editor it is given, which need not be
  the controller's own: after a call with editor 0 and a call with editor 1, the decoration
  of the first call is still alive in editor 0, a second one is alive in editor 1, and the
  controller records the second only.
\<close>

theorem decorateLine_foreign_editor_counterexample:
  "live_highlights (editors (snd (foldl step (QuickOpenController_new 0, ex_store)
      [DecorateLine ex_range 0, DecorateLine ex_range 1])) 0) = [0] \<and>
   live_highlights (editors (snd (foldl step (QuickOpenController_new 0, ex_store)
      [DecorateLine ex_range 0, DecorateLine ex_range 1])) 1) = [1] \<and>
   rangeHighlightDecorationId (fst (foldl step (QuickOpenController_new 0, ex_store)
      [DecorateLine ex_range 0, DecorateLine ex_range 1])) = Some 1"
  by (simp add: QuickOpenController_new_def ex_store_def no_editor_def decorateLine_def
      deltaDecorations_def live_highlights_def Let_def)

lemma step_keeps_captured:
  assumes "lastKnownEditorSelection (fst cw) = Some sel" "\<not> is_close ev"
  shows "lastKnownEditorSelection (fst (step cw ev)) = Some sel"
  using assms
  by (cases ev; cases cw)
    (auto simp: run_def decorateLine_def clearDecorations_def deltaDecorations_def
      Let_def split: option.splits prod.splits)

lemma foldl_step_keeps_captured:
  assumes "lastKnownEditorSelection (fst cw) = Some sel" "\<forall>ev\<in>set evs. \<not> is_close ev"
  shows "lastKnownEditorSelection (fst (foldl step cw evs)) = Some sel"
  using assms by (induction evs arbitrary: cw) (simp_all add: step_keeps_captured)

lemma run_captures:
  assumes "lastKnownEditorSelection c = None"
  shows "lastKnownEditorSelection (fst (run label (c, w))) = getSelection (editor c) w"
  using assms by (simp add: run_def Let_def split: option.splits)

lemma clearDecorations_frame:
  assumes "clearDecorations cw = (c', w')"
  shows "editor c' = editor (fst cw) \<and> rangeHighlightDecorationId c' = None \<and>
     lastKnownEditorSelection c' = lastKnownEditorSelection (fst cw) \<and>
     (\<forall>e. selection (editors w' e) = selection (editors (snd cw) e)) \<and>
     (\<forall>e. revealed (editors w' e) = revealed (editors (snd cw) e)) \<and>
     (\<forall>e. focused (editors w' e) = focused (editors (snd cw) e)) \<and>
     (\<forall>d\<in>set (decorations (editors w' (editor c'))).
        Some (fst d) \<noteq> rangeHighlightDecorationId (fst cw))"
  using assms
  by (cases cw)
    (auto simp: clearDecorations_def deltaDecorations_def Let_def split: option.splits if_splits)

lemma onClose_canceled:
  assumes "lastKnownEditorSelection (fst cw) = Some sel" "onClose True cw = (c', w')"
  shows "selection (editors w' (editor (fst cw))) = Some sel \<and>
     revealed (editors w' (editor (fst cw))) = revealed (editors (snd cw) (editor (fst cw))) @ [(sel, Smooth)] \<and>
     lastKnownEditorSelection c' = None \<and> focused (editors w' (editor (fst cw))) \<and>
     rangeHighlightDecorationId c' = None"
proof -
  obtain c1 w1 where cd: "clearDecorations cw = (c1, w1)" by (cases "clearDecorations cw")
  from clearDecorations_frame [OF cd] assms(1)
  have "editor c1 = editor (fst cw)" "rangeHighlightDecorationId c1 = None"
    "lastKnownEditorSelection c1 = Some sel"
    "revealed (editors w1 (editor (fst cw))) = revealed (editors (snd cw) (editor (fst cw)))"
    by simp_all
  with assms(2) show ?thesis
    by (auto simp: onClose_def cd Let_def setSelection_def focus_def
        revealRangeInCenterIfOutsideViewport_def)
qed

lemma onClose_accepted:
  assumes "onClose False cw = (c', w')"
  shows "(\<forall>e. selection (editors w' e) = selection (editors (snd cw) e)) \<and>
     (\<forall>e. revealed (editors w' e) = revealed (editors (snd cw) e)) \<and>
     lastKnownEditorSelection c' = None \<and> focused (editors w' (editor (fst cw))) \<and>
     rangeHighlightDecorationId c' = None \<and>
     (\<forall>d\<in>set (decorations (editors w' (editor (fst cw)))).
        Some (fst d) \<noteq> rangeHighlightDecorationId (fst cw))"
proof -
  obtain c1 w1 where cd: "clearDecorations cw = (c1, w1)" by (cases "clearDecorations cw")
  note eff = clearDecorations_frame [OF cd]
  from assms have c': "c' = c1\<lparr>lastKnownEditorSelection := None\<rparr>" and w': "w' = focus (editor c1) w1"
    by (auto simp: onClose_def cd Let_def)
  from eff show ?thesis
    by (auto simp: c' w' focus_def)
qed


text \<open>
  Claim C9 as stated has the decorations cleared when the widget closes with
  \<open>canceled = false\<close>. \<open>clearDecorations\<close> removes the recorded id from the controller's
  own editor only: after a \<open>decorateLine\<close> call that was given editor 1, closing the
  widget leaves that highlight alive in editor 1 with no id recorded.
\<close>

theorem onClose_foreign_decoration_counterexample:
  "rangeHighlightDecorationId (fst (onClose False (foldl step
      (run ''Go to line'' (QuickOpenController_new 0, ex_editing)) [DecorateLine ex_range 1]))) = None \<and>
   live_highlights (editors (snd (onClose False (foldl step
      (run ''Go to line'' (QuickOpenController_new 0, ex_editing)) [DecorateLine ex_range 1]))) 1) = [0]"
  by (simp add: QuickOpenController_new_def ex_editing_def ex_store_def no_editor_def run_def
      getSelection_def decorateLine_effect onClose_effect clearDecorations_effect focus_def
      live_highlights_def Let_def)

text \<open>
  Claim C9, amended. A \<open>run\<close> call that finds no remembered selection captures the
  editor's selection, and later \<open>run\<close> calls, \<open>decorateLine\<close> and \<open>clearDecorations\<close>
  calls and selection changes keep it. When the widget then closes with
  \<open>canceled = true\<close>, the editor's selection is set to the captured selection and that
  selection is revealed, \<open>lastKnownEditorSelection\<close> is \<open>null\<close> and the editor has the
  focus. When it closes with \<open>canceled = false\<close>, no editor's selection changes and
  nothing is revealed, \<open>lastKnownEditorSelection\<close> and the recorded id are \<open>null\<close>, the
  editor has the focus, and no decoration of the controller's editor carries the recorded
  id any more. Provided every \<open>decorateLine\<close> call was given the controller's own editor,
  that clears the decorations: the editor is left with the decorations the controller did
  not add.
\<close>

theorem onClose_restores_captured_selection:
  assumes "lastKnownEditorSelection c = None"
    and "getSelection (editor c) w = Some sel"
    and "\<forall>ev\<in>set evs. \<not> is_close ev"
    and "opened = foldl step (run label (c, w)) evs"
  shows "lastKnownEditorSelection (fst opened) = Some sel \<and>
     (\<exists>c' w'. onClose True opened = (c', w') \<and>
        getSelection (editor c) w' = Some sel \<and>
        revealed (editors w' (editor c)) = revealed (editors (snd opened) (editor c)) @ [(sel, Smooth)] \<and>
        lastKnownEditorSelection c' = None \<and> focused (editors w' (editor c)) \<and>
        rangeHighlightDecorationId c' = None \<and>
        (tracks others (c, w) \<and> (\<forall>ev\<in>set evs. \<not> foreign_editor (editor c) ev) \<longrightarrow>
           decorations (editors w' (editor c)) = others)) \<and>
     (\<exists>c' w'. onClose False opened = (c', w') \<and>
        (\<forall>e. getSelection e w' = getSelection e (snd opened)) \<and>
        (\<forall>e. revealed (editors w' e) = revealed (editors (snd opened) e)) \<and>
        lastKnownEditorSelection c' = None \<and> focused (editors w' (editor c)) \<and>
        rangeHighlightDecorationId c' = None \<and>
        (\<forall>d\<in>set (decorations (editors w' (editor c))).
           Some (fst d) \<noteq> rangeHighlightDecorationId (fst opened)) \<and>
        (tracks others (c, w) \<and> (\<forall>ev\<in>set evs. \<not> foreign_editor (editor c) ev) \<longrightarrow>
           decorations (editors w' (editor c)) = others))"
proof -
  have "lastKnownEditorSelection (fst (run label (c, w))) = Some sel"
    using run_captures [OF assms(1)] assms(2) by simp
  then have cap: "lastKnownEditorSelection (fst opened) = Some sel"
    unfolding assms(4) using assms(3) by (rule foldl_step_keeps_captured)
  have "editor (fst (run label (c, w))) = editor c"
    using step_editor [of "(c, w)" "Run label"] by simp
  then have ed: "editor (fst opened) = editor c"
    by (simp add: assms(4) foldl_step_editor)
  obtain c1 w1 where t: "onClose True opened = (c1, w1)" by (cases "onClose True opened")
  obtain c2 w2 where f: "onClose False opened = (c2, w2)" by (cases "onClose False opened")
  have cleared: "decorations (editors (snd (onClose canceled opened)) (editor c)) = others"
    if tr: "tracks others (c, w)" and own: "\<forall>ev\<in>set evs. \<not> foreign_editor (editor c) ev"
    for canceled
  proof -
    have "opened = foldl step (c, w) (Run label # evs)" by (simp add: assms(4))
    moreover from own have "\<forall>ev\<in>set (Run label # evs). \<not> foreign_editor (editor (fst (c, w))) ev"
      by simp
    ultimately have "tracks others opened"
      using foldl_step_tracks [OF tr, of "Run label # evs"] by simp
    then have "tracks others (fst opened, snd opened)" by simp
    from tracks_cleared [OF this] show ?thesis
      using onClose_decorations [of canceled "fst opened" "snd opened" "editor c"]
      by (simp add: ed)
  qed
  from cleared [of True] t have ct: "tracks others (c, w) \<and>
      (\<forall>ev\<in>set evs. \<not> foreign_editor (editor c) ev) \<longrightarrow> decorations (editors w1 (editor c)) = others"
    by auto
  from cleared [of False] f have cf: "tracks others (c, w) \<and>
      (\<forall>ev\<in>set evs. \<not> foreign_editor (editor c) ev) \<longrightarrow> decorations (editors w2 (editor c)) = others"
    by auto
  from onClose_canceled [OF cap t] onClose_accepted [OF f] cap t f ct cf show ?thesis
    by (simp add: ed getSelection_def)
qed

theorem onClose_restores_captured_selection_witness:
  "lastKnownEditorSelection (QuickOpenController_new 0) = None \<and>
   getSelection (editor (QuickOpenController_new 0)) ex_busy = Some ex_selection \<and>
   tracks [(0, ex_range, ex_find_match)] (QuickOpenController_new 0, ex_busy) \<and>
   getSelection 0 (snd (onClose True (foldl step (run ''Go to line'' (QuickOpenController_new 0, ex_busy))
      [DecorateLine ex_range 0, SelectionMoved 0 ex_moved, Run ''Go to line'']))) = Some ex_selection \<and>
   getSelection 0 (snd (onClose False (foldl step (run ''Go to line'' (QuickOpenController_new 0, ex_busy))
      [DecorateLine ex_range 0, SelectionMoved 0 ex_moved, Run ''Go to line'']))) = Some ex_moved \<and>
   decorations (editors (snd (onClose False (foldl step (run ''Go to line'' (QuickOpenController_new 0, ex_busy))
      [DecorateLine ex_range 0, SelectionMoved 0 ex_moved, Run ''Go to line'']))) 0) =
     [(0, ex_range, ex_find_match)]"
proof -
  let ?opened = "foldl step (run ''Go to line'' (QuickOpenController_new 0, ex_busy))
      [DecorateLine ex_range 0, SelectionMoved 0 ex_moved, Run ''Go to line'']"
  have a: "lastKnownEditorSelection (QuickOpenController_new 0) = None"
    by (simp add: QuickOpenController_new_def)
  have b: "getSelection (editor (QuickOpenController_new 0)) ex_busy = Some ex_selection"
    by (simp add: QuickOpenController_new_def getSelection_def ex_busy_def)
  have c: "\<forall>ev\<in>set [DecorateLine ex_range 0, SelectionMoved 0 ex_moved, Run ''Go to line'']. \<not> is_close ev"
    by simp
  have d: "getSelection 0 (snd ?opened) = Some ex_moved"
    by (simp add: run_def decorateLine_effect Let_def setSelection_def
        getSelection_def QuickOpenController_new_def ex_busy_def)
  have e: "tracks [(0, ex_range, ex_find_match)] (QuickOpenController_new 0, ex_busy)"
    by (simp add: tracks_def QuickOpenController_new_def ex_busy_def)
  have f: "\<forall>ev\<in>set [DecorateLine ex_range 0, SelectionMoved 0 ex_moved, Run ''Go to line''].
      \<not> foreign_editor (editor (QuickOpenController_new 0)) ev"
    by (simp add: QuickOpenController_new_def)
  have g: "editor (QuickOpenController_new 0) = 0"
    by (simp add: QuickOpenController_new_def)
  note all = onClose_restores_captured_selection
    [OF a b c refl, where others = "[(0, ex_range, ex_find_match)]" and label = "''Go to line''"]
  from all [THEN conjunct2, THEN conjunct1] obtain c1 w1 where
    "onClose True ?opened = (c1, w1)"
    "getSelection (editor (QuickOpenController_new 0)) w1 = Some ex_selection"
    by blast
  then have r1: "getSelection 0 (snd (onClose True ?opened)) = Some ex_selection"
    by (simp only: g snd_conv)
  from all [THEN conjunct2, THEN conjunct2] obtain c2 w2 where
    "onClose False ?opened = (c2, w2)"
    "\<forall>e. getSelection e w2 = getSelection e (snd ?opened)"
    "tracks [(0, ex_range, ex_find_match)] (QuickOpenController_new 0, ex_busy) \<and>
       (\<forall>ev\<in>set [DecorateLine ex_range 0, SelectionMoved 0 ex_moved, Run ''Go to line''].
          \<not> foreign_editor (editor (QuickOpenController_new 0)) ev) \<longrightarrow>
       decorations (editors w2 (editor (QuickOpenController_new 0))) = [(0, ex_range, ex_find_match)]"
    by blast
  with d e f have r2: "getSelection 0 (snd (onClose False ?opened)) = Some ex_moved"
    and r3: "decorations (editors (snd (onClose False ?opened)) 0) = [(0, ex_range, ex_find_match)]"
    by (simp_all only: g snd_conv simp_thms)
  from a b e r1 r2 r3 show ?thesis by blast
qed

end
